theory Spec2Isabelle
  imports Complex_Main "HOL-Library.Log_Nat"
begin

section \<open>Python values, exceptions and the outside world\<close>

text \<open>
  The module \<^verbatim>\<open>fastai_slack/__init__.py\<close> is a fastai callback that posts progress
  messages to a Slack webhook. Everything it does beyond computing strings is an effect
  on the outside world: the environment variables, the terminal, the random generator,
  the HTTP transport, standard output and the interpreter's \<^verbatim>\<open>sys.last_traceback\<close>.
  These are the fields of the record \<open>world\<close>, which every function takes and returns.
  A raised exception is the left injection of a sum. An exception object has its class
  name, its text (\<^verbatim>\<open>str(e)\<close>) and whether it is an instance of \<^verbatim>\<open>Exception\<close>: the
  classes that derive from \<^verbatim>\<open>BaseException\<close> only (\<^verbatim>\<open>KeyboardInterrupt\<close>,
  \<^verbatim>\<open>SystemExit\<close>, \<^verbatim>\<open>GeneratorExit\<close> and their like) are not, and an
  \<^verbatim>\<open>except Exception\<close> clause lets them pass.
\<close>

datatype pyexc = PyExc (exc_class: string) (exc_text: string) (is_Exception: bool)

record response =
  status_code :: int
  content :: string

text \<open>
  \<open>content\<close> is the body of the response as \<^verbatim>\<open>print\<close> shows it. A \<open>payload\<close> is the
  dictionary \<^verbatim>\<open>{"text": msg, "mrkdwn": True}\<close> handed to \<^verbatim>\<open>json.dumps\<close>; its
  serialisation is not modelled.
\<close>

record payload =
  json_text :: string
  json_mrkdwn :: bool

record world =
  environ :: "string \<rightharpoonup> string"
  tty_input :: "string list"
  rng :: "nat \<Rightarrow> nat"
  transport :: "string \<Rightarrow> payload \<Rightarrow> pyexc + response"
  posts :: "(string \<times> payload) list"
  stdout :: "string list"
  last_traceback :: "string list option"

text \<open>
  \<open>rng\<close> is the sequence of raw draws still to come from the generator of the module
  \<^verbatim>\<open>random\<close>; \<open>transport\<close> is what a call of \<^verbatim>\<open>requests.post\<close> ends in (a response,
  or an exception: one of \<^verbatim>\<open>requests\<close>' own, which are all instances of \<^verbatim>\<open>Exception\<close>,
  or any other raised while the call is blocked, such as \<^verbatim>\<open>KeyboardInterrupt\<close>);
  \<open>posts\<close> logs every call of \<^verbatim>\<open>requests.post\<close>; \<open>last_traceback\<close> is
  \<^verbatim>\<open>traceback.format_tb(sys.last_traceback)\<close> when the attribute exists.
\<close>

definition newline :: string where
  "newline = [CHR 0x0A]"

fun join :: "string \<Rightarrow> string list \<Rightarrow> string" where
  "join sep [] = []"
| "join sep [x] = x"
| "join sep (x # y # ys) = x @ sep @ join sep (y # ys)"

definition print :: "string list \<Rightarrow> world \<Rightarrow> world" where
  "print args w = w\<lparr>stdout := stdout w @ [join '' '' args]\<rparr>"

definition getpass :: "world \<Rightarrow> (pyexc + string) \<times> world" where
  "getpass w =
     (case tty_input w of
        [] \<Rightarrow> (Inl (PyExc ''EOFError'' [] True), w)
      | l # ls \<Rightarrow> (Inr l, w\<lparr>tty_input := ls\<rparr>))"

subsection \<open>Decimal rendering of integers\<close>

definition digit_char :: "nat \<Rightarrow> char" where
  "digit_char d = ''0123456789'' ! (d mod 10)"

fun str_nat :: "nat \<Rightarrow> string" where
  "str_nat n = (if n < 10 then [digit_char n] else str_nat (n div 10) @ [digit_char (n mod 10)])"

declare str_nat.simps [simp del]

definition str_int :: "int \<Rightarrow> string" where
  "str_int i = (if i < 0 then ''-'' @ str_nat (nat (- i)) else str_nat (nat i))"

section \<open>Webhook credential resolver: \<^verbatim>\<open>read_webhook_url\<close>\<close>

definition ENV_KEY :: string where
  "ENV_KEY = ''FASTAI_SLACK_WEBHOOK''"

definition help_message :: string where
  "help_message =
     ''You must provide a \"Slack Incoming Webhook\" URL for sending messages. '' @
     ''You can generate a webhook URL for your workspace by following this '' @
     ''guide: https://api.slack.com/incoming-webhooks''"

definition read_webhook_url :: "bool \<Rightarrow> bool \<Rightarrow> world \<Rightarrow> (pyexc + string) \<times> world" where
  "read_webhook_url check_env help_text w =
     (case environ w ENV_KEY of
        Some v \<Rightarrow> (Inr v, w)
      | None \<Rightarrow>
          (let w1 = (if help_text then print [help_message] w else w);
               w2 = print [''Enter webhook URL:''] w1
           in getpass w2))"

section \<open>Tag generator: \<^verbatim>\<open>generate_tag\<close>\<close>

definition ascii_lowercase :: string where
  "ascii_lowercase = ''abcdefghijklmnopqrstuvwxyz''"

definition digits :: string where
  "digits = ''0123456789''"

text \<open>
  \<^verbatim>\<open>random.choice(seq)\<close> is \<^verbatim>\<open>seq[self._randbelow(len(seq))]\<close>: the index is below the
  length whatever the generator draws. The only sequence chosen from here has 36 elements.
\<close>

definition randbelow :: "nat \<Rightarrow> world \<Rightarrow> nat \<times> world" where
  "randbelow n w = (rng w 0 mod n, w\<lparr>rng := (\<lambda>i. rng w (Suc i))\<rparr>)"

definition random_choice :: "'a list \<Rightarrow> world \<Rightarrow> 'a \<times> world" where
  "random_choice seq w = (case randbelow (length seq) w of (i, w1) \<Rightarrow> (seq ! i, w1))"

fun choices :: "nat \<Rightarrow> world \<Rightarrow> string \<times> world" where
  "choices 0 w = ([], w)"
| "choices (Suc k) w =
     (case random_choice (ascii_lowercase @ digits) w of
        (c, w1) \<Rightarrow> (case choices k w1 of (cs, w2) \<Rightarrow> (c # cs, w2)))"

definition generate_tag :: "world \<Rightarrow> string \<times> world" where
  "generate_tag w = choices 6 w"

section \<open>Notification dispatcher: \<^verbatim>\<open>sendNotification\<close>\<close>

definition requests_post :: "string \<Rightarrow> payload \<Rightarrow> world \<Rightarrow> (pyexc + response) \<times> world" where
  "requests_post url data w = (transport w url data, w\<lparr>posts := posts w @ [(url, data)]\<rparr>)"

definition failed_line :: "string \<Rightarrow> string \<Rightarrow> string" where
  "failed_line msg url = ''Falied to send notification \"'' @ msg @ ''\" to \"'' @ url @ ''\"''"

definition sendNotification :: "string \<Rightarrow> string \<Rightarrow> world \<Rightarrow> (pyexc + bool) \<times> world" where
  "sendNotification url msg w =
     (case requests_post url \<lparr>json_text = msg, json_mrkdwn = True\<rparr> w of
        (Inr res, w1) \<Rightarrow>
          (if status_code res \<noteq> 200
           then (Inr False, print [''Response'', content res] (print [failed_line msg url] w1))
           else (Inr True, w1))
      | (Inl e, w1) \<Rightarrow>
          (if is_Exception e
           then (Inr False, print [exc_text e] (print [failed_line msg url] w1))
           else (Inl e, w1)))"

section \<open>Metric formatter: \<^verbatim>\<open>format_metric\<close> and \<^verbatim>\<open>format_metrics\<close>\<close>

subsection \<open>Python floats\<close>

text \<open>
  A Python float is an IEEE 754 binary64 value. \<open>Finite s m e\<close> stands for
  \<open>(-1)\<^sup>s * m * 2\<^sup>e\<close>; the values of the format are those with \<open>m < 2\<^sup>5\<^sup>3\<close> and
  \<open>-1074 \<le> e \<le> 971\<close> (\<open>is_double\<close>), and zero keeps its sign. A metric is a float or a
  zero-dimensional tensor holding one.
\<close>

datatype pyfloat = Finite bool nat int | Infinity bool | NaN

datatype pyval = Num pyfloat | Tensor pyfloat

fun is_double :: "pyfloat \<Rightarrow> bool" where
  "is_double (Finite s m e) = (m < 2 ^ 53 \<and> - 1074 \<le> e \<and> e \<le> 971)"
| "is_double (Infinity s) = True"
| "is_double NaN = True"

definition magnitude :: "nat \<Rightarrow> int \<Rightarrow> rat" where
  "magnitude m e = of_nat m * 2 powi e"

subsection \<open>The format specification \<^verbatim>\<open>.4f\<close>\<close>

text \<open>
  \<^verbatim>\<open>'{:.4f}'.format(x)\<close> on a float renders the exact binary value correctly rounded
  to four decimals, ties to the even last digit, with a minus sign when the sign bit is
  set (also for a zero result); the non-finite floats render as \<^verbatim>\<open>nan\<close>, \<^verbatim>\<open>inf\<close> and
  \<^verbatim>\<open>-inf\<close>.
\<close>

definition round_half_even :: "rat \<Rightarrow> int" where
  "round_half_even x =
     (let f = \<lfloor>x\<rfloor>; r = x - of_int f
      in if r < 1 / 2 then f else if 1 / 2 < r then f + 1 else if even f then f else f + 1)"

definition sign_str :: "bool \<Rightarrow> string" where
  "sign_str s = (if s then ''-'' else [])"

definition pad4 :: "nat \<Rightarrow> string" where
  "pad4 k = [digit_char (k div 1000), digit_char (k div 100), digit_char (k div 10), digit_char k]"

definition fixed4 :: "nat \<Rightarrow> string" where
  "fixed4 N = str_nat (N div 10000) @ ''.'' @ pad4 (N mod 10000)"

fun format_4f :: "pyfloat \<Rightarrow> string" where
  "format_4f (Finite s m e) = sign_str s @ fixed4 (nat (round_half_even (magnitude m e * 10000)))"
| "format_4f (Infinity s) = sign_str s @ ''inf''"
| "format_4f NaN = ''nan''"

text \<open>
  \<^verbatim>\<open>format_metric\<close>: a tensor is first detached; formatting a zero-dimensional tensor
  formats the number it holds.
\<close>

fun format_metric :: "pyval \<Rightarrow> string" where
  "format_metric (Tensor x) = format_4f x"
| "format_metric (Num x) = format_4f x"

subsection \<open>Reading a float back: \<^verbatim>\<open>float(s)\<close>\<close>

text \<open>
  The numeric value of a formatted metric is what Python's \<^verbatim>\<open>float\<close> makes of the
  string: the decimal number it denotes, correctly rounded to the nearest binary64 value,
  ties to the even mantissa, overflowing to infinity. \<open>ilog2 x\<close> is the exponent of the
  binade of a positive \<open>x\<close>; the mantissa is taken at 53 bits (fewer below the normal
  range, where the exponent stays at \<open>-1074\<close>).
\<close>

definition ilog2 :: "rat \<Rightarrow> int" where
  "ilog2 x =
     (case quotient_of x of
        (a, b) \<Rightarrow> (let k = bitlen a - bitlen b in if 2 powi k \<le> x then k else k - 1))"

definition round_to_double :: "bool \<Rightarrow> rat \<Rightarrow> pyfloat" where
  "round_to_double s x =
     (if x = 0 then Finite s 0 0
      else let e = max (- 1074) (ilog2 x - 52);
               m = nat (round_half_even (x / 2 powi e))
           in if m = 2 ^ 53
              then (if 971 \<le> e then Infinity s else Finite s (2 ^ 52) (e + 1))
              else if 971 < e then Infinity s else Finite s m e)"

text \<open>
  \<open>py_float\<close> covers the notations that \<^verbatim>\<open>.4f\<close> produces (an optional minus sign, then
  \<^verbatim>\<open>inf\<close>, \<^verbatim>\<open>nan\<close> or digits with an optional fraction); on any other string it gives
  \<open>None\<close>, whether Python rejects the string or accepts a notation not modelled here
  (exponents, underscores, surrounding blanks).
\<close>

fun index_of :: "'a \<Rightarrow> 'a list \<Rightarrow> nat option" where
  "index_of c [] = None"
| "index_of c (x # xs) = (if c = x then Some 0 else map_option Suc (index_of c xs))"

definition digit_val :: "char \<Rightarrow> nat option" where
  "digit_val c = index_of c digits"

fun digits_val :: "nat \<Rightarrow> string \<Rightarrow> nat option" where
  "digits_val acc [] = Some acc"
| "digits_val acc (c # cs) =
     (case digit_val c of None \<Rightarrow> None | Some d \<Rightarrow> digits_val (10 * acc + d) cs)"

definition py_float :: "string \<Rightarrow> pyfloat option" where
  "py_float str =
     (let neg = (take 1 str = ''-'');
          body = (if neg then drop 1 str else str)
      in if body = ''inf'' then Some (Infinity neg)
         else if body = ''nan'' then Some NaN
         else let ip = takeWhile (\<lambda>c. c \<noteq> CHR ''.'') body;
                  fp = drop 1 (dropWhile (\<lambda>c. c \<noteq> CHR ''.'') body)
              in if ip @ fp = [] then None
                 else (case (digits_val 0 ip, digits_val 0 fp) of
                         (Some a, Some b) \<Rightarrow>
                           Some (round_to_double neg (of_nat a + of_nat b / 10 ^ length fp))
                       | _ \<Rightarrow> None))"

text \<open>
  \<open>four_decimals\<close>: the string has a decimal point, and what follows the first one is
  exactly four decimal digits. \<open>float_of\<close> is the number a metric holds.
\<close>

definition four_decimals :: "string \<Rightarrow> bool" where
  "four_decimals str =
     (let fp = drop 1 (dropWhile (\<lambda>c. c \<noteq> CHR ''.'') str)
      in CHR ''.'' \<in> set str \<and> length fp = 4 \<and> list_all (\<lambda>c. c \<in> set digits) fp)"

fun float_of :: "pyval \<Rightarrow> pyfloat" where
  "float_of (Num x) = x"
| "float_of (Tensor x) = x"

fun is_finite :: "pyfloat \<Rightarrow> bool" where
  "is_finite (Finite s m e) = True"
| "is_finite (Infinity s) = False"
| "is_finite NaN = False"

subsection \<open>The one-row table\<close>

text \<open>
  \<^verbatim>\<open>pd.DataFrame([vals], columns=names).to_string(index=False)\<close> belongs to pandas, not to
  this repository: the layout of the table is the parameter \<open>to_string\<close>, applied to the
  column names and the formatted row. What the model keeps of pandas is that the
  constructor raises when the row and the column names differ in length.
\<close>

definition format_metrics ::
  "(string list \<Rightarrow> string list \<Rightarrow> string) \<Rightarrow> string list \<Rightarrow> pyval list \<Rightarrow> pyexc + string" where
  "format_metrics to_string names metric_vals =
     (let vals = map format_metric metric_vals
      in if length names \<noteq> length vals
         then Inl (PyExc ''ValueError''
                (str_nat (length names) @ '' columns passed, passed data had '' @
                 str_nat (length vals) @ '' columns'') True)
         else Inr (''```'' @ newline @ to_string names vals @ newline @ ''```''))"

section \<open>Training lifecycle adapter: \<^verbatim>\<open>SlackCallback\<close>\<close>

text \<open>
  The attribute \<^verbatim>\<open>metrics\<close> does not exist before \<^verbatim>\<open>on_train_begin\<close> has run: it is
  \<open>None\<close> until then, and reading it raises \<^verbatim>\<open>AttributeError\<close>. Every method returns its
  result, the object and the world.
\<close>

record SlackCallback =
  name :: string
  freq :: int
  tag :: string
  url :: string
  metrics :: "string list option"

text \<open>
  The keyword arguments fastai passes to every callback. \<open>exception\<close> is \<open>None\<close> for
  fastai's \<^verbatim>\<open>False\<close> (no exception) and holds the exception object otherwise; exception
  objects are truthy, as \<^verbatim>\<open>BaseException\<close> defines neither \<^verbatim>\<open>__bool__\<close> nor
  \<^verbatim>\<open>__len__\<close>.
\<close>

record kwargs =
  epoch :: int
  n_epochs :: int
  smooth_loss :: pyval
  last_metrics :: "pyval list"
  metrics_names :: "string list"
  exception :: "pyexc option"

datatype msg = Str string | Lines "string list"

definition init ::
  "string \<Rightarrow> string option \<Rightarrow> int \<Rightarrow> world \<Rightarrow> (pyexc + SlackCallback) \<times> world" where
  "init nm webhook_url frequency w =
     (let self = \<lparr>name = nm, freq = frequency, tag = [], url = [], metrics = None\<rparr>
      in if webhook_url \<noteq> None \<and> webhook_url \<noteq> Some []
         then (Inr (self\<lparr>url := the webhook_url\<rparr>), w)
         else (case read_webhook_url True True w of
                 (Inl e, w1) \<Rightarrow> (Inl e, w1)
               | (Inr u, w1) \<Rightarrow> (Inr (self\<lparr>url := u\<rparr>), w1)))"

definition banner :: "SlackCallback \<Rightarrow> string" where
  "banner self = ''[`'' @ name self @ '' '' @ tag self @ ''`] ''"

definition send :: "SlackCallback \<Rightarrow> msg \<Rightarrow> world \<Rightarrow> (pyexc + unit) \<times> SlackCallback \<times> world" where
  "send self m w =
     (let s = (case m of Lines ls \<Rightarrow> join newline ls | Str s \<Rightarrow> s)
      in case sendNotification (url self) (banner self @ s) w of
           (Inl e, w1) \<Rightarrow> (Inl e, self, w1)
         | (Inr b, w1) \<Rightarrow> (Inr (), self, w1))"

definition send_metrics ::
  "(string list \<Rightarrow> string list \<Rightarrow> string) \<Rightarrow> SlackCallback \<Rightarrow> kwargs \<Rightarrow> string list option \<Rightarrow>
   world \<Rightarrow> (pyexc + unit) \<times> SlackCallback \<times> world" where
  "send_metrics to_string self ka m w =
     (let msg0 = (case m of None \<Rightarrow> [] | Some ls \<Rightarrow> ls);
          ep = min (epoch ka + 1) (n_epochs ka);
          msg1 = msg0 @ [''Epoch '' @ str_int ep @ ''/'' @ str_int (n_epochs ka)]
      in case metrics self of
           None \<Rightarrow>
             (Inl (PyExc ''AttributeError''
                ([CHR 0x27] @ ''SlackCallback' object has no attribute 'metrics'' @ [CHR 0x27])
                True), self, w)
         | Some names \<Rightarrow>
             (case format_metrics to_string names (smooth_loss ka # last_metrics ka) of
                Inl e \<Rightarrow> (Inl e, self, w)
              | Inr metrics_str \<Rightarrow> send self (Lines (msg1 @ [metrics_str])) w))"

definition on_train_begin ::
  "SlackCallback \<Rightarrow> kwargs \<Rightarrow> world \<Rightarrow> (pyexc + unit) \<times> SlackCallback \<times> world" where
  "on_train_begin self ka w =
     (case generate_tag w of
        (t, w1) \<Rightarrow>
          (let self1 = self\<lparr>tag := t\<rparr>;
               self2 = self1\<lparr>metrics := Some ([''train_loss'', ''valid_loss''] @ metrics_names ka)\<rparr>
           in case send self2
                     (Str (''*Started training for '' @ str_int (n_epochs ka) @ '' epochs*'')) w1 of
                (Inl e, self3, w2) \<Rightarrow> (Inl e, self3, w2)
              | (Inr u, self3, w2) \<Rightarrow>
                  (Inr (), self3,
                   print [''Slack notification tag:'',
                          ''['' @ name self3 @ '' '' @ tag self3 @ '']''] w2)))"

definition on_epoch_end ::
  "(string list \<Rightarrow> string list \<Rightarrow> string) \<Rightarrow> SlackCallback \<Rightarrow> kwargs \<Rightarrow> world \<Rightarrow>
   (pyexc + unit) \<times> SlackCallback \<times> world" where
  "on_epoch_end to_string self ka w =
     (if freq self > 0 \<and> (epoch ka + 1) mod freq self = 0
      then send_metrics to_string self ka None w
      else (Inr (), self, w))"

definition on_train_end ::
  "(string list \<Rightarrow> string list \<Rightarrow> string) \<Rightarrow> SlackCallback \<Rightarrow> kwargs \<Rightarrow> world \<Rightarrow>
   (pyexc + unit) \<times> SlackCallback \<times> world" where
  "on_train_end to_string self ka w =
     (case exception ka of
        Some ex \<Rightarrow>
          (let ex_str = ''`'' @ exc_text ex @ ''`'';
               tb_str = (case last_traceback w of
                           Some tb \<Rightarrow> ''```'' @ newline @ join newline tb @ newline @ ''```''
                         | None \<Rightarrow> ''Failed to detect stacktrace'')
           in send self (Lines [''*Training failed with exception:'', ex_str, tb_str]) w)
      | None \<Rightarrow>
          (let msg0 = [''*Training complete*'']
           in if freq self = 0 \<or> n_epochs ka mod freq self > 0
              then send_metrics to_string self ka (Some msg0) w
              else send self (Lines msg0) w))"

section \<open>Observing dispatches\<close>

text \<open>
  A dispatch is a call of \<^verbatim>\<open>requests.post\<close>. The messages dispatched between two worlds
  are the entries the later one's log has gained.
\<close>

definition dispatched :: "world \<Rightarrow> world \<Rightarrow> (string \<times> payload) list" where
  "dispatched w w' = drop (length (posts w)) (posts w')"

definition result_of :: "'r \<times> SlackCallback \<times> world \<Rightarrow> 'r" where
  "result_of r = fst r"

definition self_of :: "'r \<times> SlackCallback \<times> world \<Rightarrow> SlackCallback" where
  "self_of r = fst (snd r)"

definition world_of :: "'r \<times> SlackCallback \<times> world \<Rightarrow> world" where
  "world_of r = snd (snd r)"

text \<open>A world, an adapter and callback arguments to evaluate the functions on.\<close>

definition example_world :: world where
  "example_world =
     \<lparr>environ = Map.empty, tty_input = [], rng = (\<lambda>i. i),
      transport = (\<lambda>u d. Inr \<lparr>status_code = 200, content = ''ok''\<rparr>),
      posts = [], stdout = [], last_traceback = None\<rparr>"

definition example_callback :: SlackCallback where
  "example_callback =
     \<lparr>name = ''proj'', freq = 2, tag = ''abcdef'', url = ''https://hooks.example/T'',
      metrics = Some [''train_loss'', ''valid_loss'', ''accuracy'']\<rparr>"

definition example_kwargs :: kwargs where
  "example_kwargs =
     \<lparr>epoch = 1, n_epochs = 4, smooth_loss = Tensor (Finite False 1 (- 1)),
      last_metrics = [Num (Finite False 3 (- 2)), Num (Finite False 7 (- 3))],
      metrics_names = [''accuracy''], exception = None\<rparr>"

definition example_to_string :: "string list \<Rightarrow> string list \<Rightarrow> string" where
  "example_to_string names vals = join '' '' names @ newline @ join '' '' vals"

text \<open>A message body begins with a given banner.\<close>

definition starts_with :: "string \<Rightarrow> string \<Rightarrow> bool" where
  "starts_with p s = (take (length p) s = p)"

section \<open>Properties of the dispatcher and of the adapter\<close>

subsection \<open>What one send does\<close>

lemma posts_print [simp]: "posts (print a w) = posts w"
  by (simp add: print_def)

lemma last_traceback_print [simp]: "last_traceback (print a w) = last_traceback w"
  by (simp add: print_def)

lemma dispatched_same [simp]: "dispatched w w = []"
  by (simp add: dispatched_def)

lemma dispatched_print [simp]: "dispatched w (print a w') = dispatched w w'"
  by (simp add: dispatched_def)

lemma dispatched_cong: "posts w1 = posts w \<Longrightarrow> dispatched w1 w' = dispatched w w'"
  by (simp add: dispatched_def)

lemma starts_with_append [simp]: "starts_with p (p @ s)"
  by (simp add: starts_with_def)

lemma sendNotification_result:
  "fst (sendNotification u m w) =
     (case transport w u \<lparr>json_text = m, json_mrkdwn = True\<rparr> of
        Inr res \<Rightarrow> Inr (status_code res = 200)
      | Inl e \<Rightarrow> if is_Exception e then Inr False else Inl e)"
  by (simp add: sendNotification_def requests_post_def split: sum.split)

lemma sendNotification_posts:
  "posts (snd (sendNotification u m w)) = posts w @ [(u, \<lparr>json_text = m, json_mrkdwn = True\<rparr>)]"
  by (simp add: sendNotification_def requests_post_def split: sum.split)

lemma send_result:
  "result_of (send self m w) =
     (case transport w (url self)
             \<lparr>json_text = banner self @ (case m of Lines ls \<Rightarrow> join newline ls | Str s \<Rightarrow> s),
              json_mrkdwn = True\<rparr> of
        Inr res \<Rightarrow> Inr ()
      | Inl e \<Rightarrow> if is_Exception e then Inr () else Inl e)"
  using sendNotification_result [of "url self"
      "banner self @ (case m of Lines ls \<Rightarrow> join newline ls | Str s \<Rightarrow> s)" w]
  by (auto simp: send_def result_of_def Let_def split: prod.splits sum.splits if_splits)

lemma send_self: "self_of (send self m w) = self"
  by (simp add: send_def self_of_def Let_def split: prod.split sum.split)

lemma send_dispatched:
  "dispatched w (world_of (send self m w)) =
     [(url self, \<lparr>json_text = banner self @ (case m of Lines ls \<Rightarrow> join newline ls | Str s \<Rightarrow> s),
                  json_mrkdwn = True\<rparr>)]"
  using sendNotification_posts [of "url self" "banner self @ (case m of Lines ls \<Rightarrow> join newline ls | Str s \<Rightarrow> s)" w]
  by (auto simp: send_def world_of_def dispatched_def Let_def split: prod.split sum.split)

lemma format_metrics_ok:
  "length names = Suc (length ms) \<Longrightarrow>
   format_metrics ts names (x # ms) =
     Inr (''```'' @ newline @ ts names (map format_metric (x # ms)) @ newline @ ''```'')"
  by (simp add: format_metrics_def Let_def)

lemma send_metrics_self: "self_of (send_metrics ts self ka m w) = self"
  using send_self [of self _ w]
  by (simp add: send_metrics_def Let_def self_of_def split: option.split sum.split)

lemma send_metrics_dispatched:
  assumes "metrics self = Some names" and "length names = Suc (length (last_metrics ka))"
  shows "dispatched w (world_of (send_metrics ts self ka m w)) =
     [(url self,
       \<lparr>json_text = banner self @ join newline
            ((case m of None \<Rightarrow> [] | Some ls \<Rightarrow> ls) @
             [''Epoch '' @ str_int (min (epoch ka + 1) (n_epochs ka)) @ ''/'' @ str_int (n_epochs ka),
              ''```'' @ newline @
              ts names (map format_metric (smooth_loss ka # last_metrics ka)) @ newline @ ''```'']),
        json_mrkdwn = True\<rparr>)]"
  using assms by (simp add: send_metrics_def Let_def format_metrics_ok send_dispatched)

lemma send_metrics_dispatched_any:
  "dispatched w (world_of (send_metrics ts self ka m w)) = [] \<or>
   (\<exists>s. dispatched w (world_of (send_metrics ts self ka m w)) =
      [(url self, \<lparr>json_text = banner self @ s, json_mrkdwn = True\<rparr>)])"
proof (cases "metrics self")
  case None
  then show ?thesis by (simp add: send_metrics_def Let_def world_of_def)
next
  case (Some names)
  show ?thesis
  proof (cases "format_metrics ts names (smooth_loss ka # last_metrics ka)")
    case (Inl e)
    with Some show ?thesis by (simp add: send_metrics_def Let_def world_of_def)
  next
    case (Inr t)
    with Some show ?thesis by (simp add: send_metrics_def Let_def send_dispatched)
  qed
qed

lemma str_int_small [simp]: "str_int 2 = ''2''" "str_int 4 = ''4''"
  by (simp_all add: str_int_def str_nat.simps digit_char_def)

subsection \<open>The tag generator\<close>

lemma choices_Suc:
  "fst (choices (Suc k) w) =
     fst (random_choice (ascii_lowercase @ digits) w) #
     fst (choices k (snd (random_choice (ascii_lowercase @ digits) w)))"
  by (simp split: prod.split)

lemma choices_Suc_snd:
  "snd (choices (Suc k) w) = snd (choices k (snd (random_choice (ascii_lowercase @ digits) w)))"
  by (simp split: prod.split)

lemma choices_length: "length (fst (choices k w)) = k"
  by (induction k arbitrary: w) (simp_all add: choices_Suc del: choices.simps(2))

lemma random_choice_mem: "seq \<noteq> [] \<Longrightarrow> fst (random_choice seq w) \<in> set seq"
  by (simp add: random_choice_def randbelow_def)

lemma random_choice_posts: "posts (snd (random_choice seq w)) = posts w"
  by (simp add: random_choice_def randbelow_def)

lemma choices_alphabet: "set (fst (choices k w)) \<subseteq> set (ascii_lowercase @ digits)"
proof (induction k arbitrary: w)
  case 0
  show ?case by simp
next
  case (Suc k)
  have ne: "ascii_lowercase @ digits \<noteq> []"
    by (simp add: digits_def)
  show ?case
    unfolding choices_Suc using random_choice_mem [OF ne, of w] Suc
    by (simp del: set_append)
qed

lemma choices_posts: "posts (snd (choices k w)) = posts w"
  by (induction k arbitrary: w)
    (simp_all add: choices_Suc_snd random_choice_posts del: choices.simps(2))

lemma generate_tag_posts: "posts (snd (generate_tag w)) = posts w"
  by (simp add: generate_tag_def choices_posts)

subsection \<open>The callbacks\<close>

lemma on_train_begin_unfold:
  "on_train_begin self ka w =
     (let self2 = self\<lparr>tag := fst (generate_tag w),
                       metrics := Some ([''train_loss'', ''valid_loss''] @ metrics_names ka)\<rparr>;
          r = send self2 (Str (''*Started training for '' @ str_int (n_epochs ka) @ '' epochs*''))
                (snd (generate_tag w))
      in case result_of r of
           Inl e \<Rightarrow> (Inl e, self2, world_of r)
         | Inr u \<Rightarrow>
             (Inr (), self2,
              print [''Slack notification tag:'', ''['' @ name self2 @ '' '' @ tag self2 @ '']'']
                (world_of r)))"
proof -
  obtain t w1 where g: "generate_tag w = (t, w1)"
    by (cases "generate_tag w")
  let ?s2 = "self\<lparr>tag := t, metrics := Some ([''train_loss'', ''valid_loss''] @ metrics_names ka)\<rparr>"
  let ?m = "Str (''*Started training for '' @ str_int (n_epochs ka) @ '' epochs*'')"
  obtain r s3 w2 where s: "send ?s2 ?m w1 = (r, s3, w2)"
    by (cases "send ?s2 ?m w1")
  from s send_self [of ?s2 ?m w1] have s3: "s3 = ?s2"
    by (simp add: self_of_def)
  show ?thesis
    unfolding on_train_begin_def g Let_def prod.case fst_conv snd_conv s world_of_def result_of_def
    by (cases r) (simp_all only: s3 prod.case sum.case)
qed

lemma on_train_begin_self:
  "self_of (on_train_begin self ka w) =
     self\<lparr>tag := fst (generate_tag w),
          metrics := Some ([''train_loss'', ''valid_loss''] @ metrics_names ka)\<rparr>"
  by (simp add: on_train_begin_unfold Let_def self_of_def split: sum.split)

lemma on_train_begin_dispatched:
  "dispatched w (world_of (on_train_begin self ka w)) =
     [(url self,
       \<lparr>json_text = banner (self_of (on_train_begin self ka w)) @
          ''*Started training for '' @ str_int (n_epochs ka) @ '' epochs*'',
        json_mrkdwn = True\<rparr>)]"
proof -
  let ?s2 = "self\<lparr>tag := fst (generate_tag w),
      metrics := Some ([''train_loss'', ''valid_loss''] @ metrics_names ka)\<rparr>"
  let ?m = "Str (''*Started training for '' @ str_int (n_epochs ka) @ '' epochs*'')"
  have "dispatched w (world_of (on_train_begin self ka w)) =
      dispatched (snd (generate_tag w)) (world_of (send ?s2 ?m (snd (generate_tag w))))"
    by (simp add: on_train_begin_unfold Let_def world_of_def
        dispatched_cong [OF generate_tag_posts] split: sum.split)
  then show ?thesis
    by (simp add: send_dispatched on_train_begin_self)
qed

lemma on_epoch_end_self: "self_of (on_epoch_end ts self ka w) = self"
  using send_metrics_self [of ts self ka None w]
  by (simp add: on_epoch_end_def self_of_def)

lemma on_train_end_self: "self_of (on_train_end ts self ka w) = self"
  using send_metrics_self [of ts self ka _ w] send_self [of self _ w]
  by (simp add: on_train_end_def self_of_def Let_def split: option.split)

lemma on_epoch_end_dispatched_any:
  "dispatched w (world_of (on_epoch_end ts self ka w)) = [] \<or>
   (\<exists>s. dispatched w (world_of (on_epoch_end ts self ka w)) =
      [(url self, \<lparr>json_text = banner self @ s, json_mrkdwn = True\<rparr>)])"
proof (cases "0 < freq self \<and> (epoch ka + 1) mod freq self = 0")
  case True
  with send_metrics_dispatched_any [of w ts self ka None] show ?thesis
    by (simp add: on_epoch_end_def)
next
  case False
  then have "dispatched w (world_of (on_epoch_end ts self ka w)) = []"
    by (auto simp: on_epoch_end_def world_of_def)
  then show ?thesis ..
qed

lemma on_train_end_dispatched_any:
  "dispatched w (world_of (on_train_end ts self ka w)) = [] \<or>
   (\<exists>s. dispatched w (world_of (on_train_end ts self ka w)) =
      [(url self, \<lparr>json_text = banner self @ s, json_mrkdwn = True\<rparr>)])"
proof (cases "exception ka")
  case (Some ex)
  then show ?thesis
    by (simp add: on_train_end_def Let_def send_dispatched)
next
  case None
  show ?thesis
  proof (cases "freq self = 0 \<or> 0 < n_epochs ka mod freq self")
    case True
    with None send_metrics_dispatched_any [of w ts self ka "Some [''*Training complete*'']"]
    show ?thesis by (simp add: on_train_end_def Let_def)
  next
    case False
    with None show ?thesis
      by (simp add: on_train_end_def Let_def send_dispatched)
  qed
qed

lemma read_webhook_url_check_env_unused:
  "read_webhook_url check_env help_text w = read_webhook_url (\<not> check_env) help_text w"
  by (simp add: read_webhook_url_def)

lemma init_tag: "init nm u f w = (Inr self', w') \<Longrightarrow> tag self' = []"
  by (auto simp: init_def Let_def split: if_splits prod.splits sum.splits)

section \<open>Properties of the metric formatter\<close>

subsection \<open>Rounding to the nearest integer, ties to even\<close>

lemma rhe_cases:
  "round_half_even x = \<lfloor>x\<rfloor> \<or> round_half_even x = \<lfloor>x\<rfloor> + 1"
  by (simp add: round_half_even_def Let_def)

lemma rhe_split:
  assumes "0 \<le> r" and "r < 1"
  shows "round_half_even (of_int f + r) =
    (if r < 1 / 2 then f else if 1 / 2 < r then f + 1 else if even f then f else f + 1)"
proof -
  have "\<lfloor>of_int f + r\<rfloor> = f"
    using assms by (intro floor_unique) simp_all
  then show ?thesis
    by (simp add: round_half_even_def Let_def)
qed

lemma floor_frac_obtain:
  obtains f :: int and r :: rat where "x = of_int f + r" and "0 \<le> r" and "r < 1"
proof
  show "x = of_int \<lfloor>x\<rfloor> + (x - of_int \<lfloor>x\<rfloor>)" by simp
  show "0 \<le> x - of_int \<lfloor>x\<rfloor>" by simp
  show "x - of_int \<lfloor>x\<rfloor> < 1" by linarith
qed

lemma rhe_dist: "\<bar>of_int (round_half_even x) - x\<bar> \<le> 1 / 2"
proof -
  obtain f r where x: "x = of_int f + r" and r: "0 \<le> r" "r < 1"
    by (rule floor_frac_obtain)
  show ?thesis
    unfolding x rhe_split [OF r] using r by (auto simp: abs_if)
qed

lemma rhe_unique:
  assumes "\<bar>of_int k - x\<bar> < 1 / 2"
  shows "round_half_even x = k"
proof -
  have "\<bar>(of_int (round_half_even x) :: rat) - of_int k\<bar> < 1"
    using rhe_dist [of x] assms by linarith
  then have "\<bar>round_half_even x - k\<bar> < 1"
    by (metis of_int_diff of_int_abs of_int_less_1_iff)
  then show ?thesis by linarith
qed

lemma rhe_tie_even:
  assumes "\<bar>of_int (round_half_even x) - x\<bar> = 1 / 2"
  shows "even (round_half_even x)"
proof -
  obtain f r where x: "x = of_int f + r" and r: "0 \<le> r" "r < 1"
    by (rule floor_frac_obtain)
  from assms show ?thesis
    unfolding x rhe_split [OF r] using r by (auto simp: abs_if split: if_splits)
qed

lemma rhe_tie:
  assumes "\<bar>of_int k - x\<bar> = 1 / 2" and "even k"
  shows "round_half_even x = k"
proof -
  have f: "of_int \<lfloor>x\<rfloor> \<le> x" "x < of_int \<lfloor>x\<rfloor> + 1"
    by linarith+
  from assms(1) have "x = of_int k + 1 / 2 \<or> x = of_int k - 1 / 2"
    by (auto simp: abs_if split: if_splits)
  then show ?thesis
  proof
    assume x: "x = of_int k + 1 / 2"
    then have "\<lfloor>x\<rfloor> = k" by (simp add: floor_unique)
    with x assms(2) show ?thesis
      by (simp add: round_half_even_def Let_def)
  next
    assume x: "x = of_int k - 1 / 2"
    then have fl: "\<lfloor>x\<rfloor> = k - 1" by (simp add: floor_unique)
    with assms(2) have "odd \<lfloor>x\<rfloor>" by simp
    with x fl show ?thesis
      by (simp add: round_half_even_def Let_def)
  qed
qed

lemma rhe_nearest: "\<bar>of_int (round_half_even x) - x\<bar> \<le> \<bar>of_int k - x\<bar>"
proof (cases "\<bar>of_int k - x\<bar> < 1 / 2")
  case True
  then show ?thesis by (simp add: rhe_unique)
next
  case False
  with rhe_dist [of x] show ?thesis by linarith
qed

lemma rhe_of_int [simp]: "round_half_even (of_int k) = k"
  by (rule rhe_unique) simp

lemma rhe_nonneg: "0 \<le> x \<Longrightarrow> 0 \<le> round_half_even x"
  using rhe_cases [of x] by (auto simp: zero_le_floor intro: order_trans)

lemma rhe_mono_le_int: "x \<le> of_int k \<Longrightarrow> round_half_even x \<le> k"
proof -
  assume a: "x \<le> of_int k"
  have "\<lfloor>x\<rfloor> \<le> k" using a by (simp add: floor_le_iff) 
  show ?thesis
  proof (cases "x = of_int k")
    case True then show ?thesis by simp
  next
    case False
    with a have "x < of_int k" by simp
    then have "\<lfloor>x\<rfloor> < k" by (simp add: floor_less_iff)
    with rhe_cases [of x] show ?thesis by auto
  qed
qed

lemma rhe_ge_int: "of_int k \<le> x \<Longrightarrow> k \<le> round_half_even x"
proof -
  assume "of_int k \<le> x"
  then have "k \<le> \<lfloor>x\<rfloor>" by (simp add: le_floor_iff)
  with rhe_cases [of x] show ?thesis by auto
qed

subsection \<open>Rounding to the nearest double\<close>

lemma powi2_diff: "(2::rat) powi (m - n) = 2 powi m / 2 powi n"
  by (rule power_int_diff) simp

lemma powi2_add: "(2::rat) powi (m + n) = 2 powi m * 2 powi n"
  by (rule power_int_add) simp

lemma powi2_pos [simp]: "0 < (2::rat) powi e"
  by simp

lemma bitlen_powi:
  assumes "0 < a"
  shows "(2::rat) powi (bitlen a - 1) \<le> of_int a" and "of_int a < (2::rat) powi (bitlen a)"
proof -
  from assms have b: "1 \<le> bitlen a"
    by (simp add: bitlen_alt_def)
  from bitlen_bounds [OF assms]
  have lo: "2 ^ nat (bitlen a - 1) \<le> a" and hi: "a < 2 ^ nat (bitlen a)"
    by simp_all
  have "(2::rat) powi (bitlen a - 1) = 2 ^ nat (bitlen a - 1)"
    using b by (simp add: power_int_def)
  also have "\<dots> = of_int (2 ^ nat (bitlen a - 1))"
    by simp
  also have "\<dots> \<le> of_int a"
    using lo by (simp only: of_int_le_iff)
  finally show "(2::rat) powi (bitlen a - 1) \<le> of_int a" .
  have "(of_int a :: rat) < of_int (2 ^ nat (bitlen a))"
    using hi by (simp only: of_int_less_iff)
  also have "\<dots> = 2 ^ nat (bitlen a)"
    by simp
  also have "\<dots> = 2 powi (bitlen a)"
    using b by (simp add: power_int_def)
  finally show "of_int a < (2::rat) powi (bitlen a)" .
qed

lemma ilog2_bounds:
  assumes "0 < x"
  shows "2 powi (ilog2 x) \<le> x" and "x < 2 powi (ilog2 x + 1)"
proof -
  obtain a b where q: "quotient_of x = (a, b)"
    by (cases "quotient_of x")
  then have b: "0 < b" and x: "x = of_int a / of_int b"
    by (simp_all add: quotient_of_denom_pos quotient_of_div)
  from assms x b have a: "0 < a"
    by (simp add: zero_less_divide_iff)
  define k where "k = bitlen a - bitlen b"
  have pb: "(0::rat) < of_int b" using b by simp
  have "x < 2 powi (bitlen a) / 2 powi (bitlen b - 1)"
  proof -
    have "x < 2 powi (bitlen a) / of_int b"
      unfolding x using bitlen_powi(2) [OF a] pb by (simp add: divide_strict_right_mono)
    also have "\<dots> \<le> 2 powi (bitlen a) / 2 powi (bitlen b - 1)"
      using bitlen_powi(1) [OF b] pb by (intro divide_left_mono) (simp_all add: zero_less_mult_iff)
    finally show ?thesis .
  qed
  also have "\<dots> = 2 powi (bitlen a - (bitlen b - 1))"
    by (simp only: powi2_diff)
  also have "bitlen a - (bitlen b - 1) = k + 1"
    by (simp add: k_def)
  finally have up: "x < 2 powi (k + 1)" .
  have "k - 1 = bitlen a - 1 - bitlen b"
    by (simp add: k_def)
  then have "2 powi (k - 1) = (2::rat) powi (bitlen a - 1) / 2 powi (bitlen b)"
    by (simp only: powi2_diff)
  also have "\<dots> \<le> of_int a / 2 powi (bitlen b)"
    using bitlen_powi(1) [OF a] by (simp add: divide_right_mono)
  also have "\<dots> \<le> of_int a / of_int b"
    using bitlen_powi(2) [OF b] a pb by (intro divide_left_mono) (simp_all add: zero_less_mult_iff)
  finally have lo: "2 powi (k - 1) \<le> x"
    by (simp add: x)
  have i: "ilog2 x = (if 2 powi k \<le> x then k else k - 1)"
    by (simp add: ilog2_def q k_def Let_def)
  show "2 powi (ilog2 x) \<le> x"
    using lo by (simp add: i)
  show "x < 2 powi (ilog2 x + 1)"
    using up by (auto simp: i not_le)
qed

lemma grid_scale:
  assumes "0 < p"
  shows "\<bar>of_int j * p - x\<bar> = \<bar>of_int j - x / p\<bar> * (p::rat)"
proof -
  have "of_int j * p - x = (of_int j - x / p) * p"
    using assms by (simp add: field_simps)
  then show ?thesis
    using assms by (simp add: abs_mult)
qed

lemma grid_step:
  assumes "0 < (p::rat)"
  shows "\<bar>of_int (round_half_even (x / p)) * p - x\<bar> \<le> \<bar>of_int k * p - x\<bar>"
  unfolding grid_scale [OF assms]
  using rhe_nearest [of "x / p" k] assms by (simp add: mult_right_mono)

lemma magnitude_nonneg [simp]: "0 \<le> magnitude m e"
  by (simp add: magnitude_def)

lemma magnitude_less:
  assumes "m < 2 ^ 53"
  shows "magnitude m e < 2 powi (e + 53)"
proof -
  have "(of_nat m :: rat) < of_nat (2 ^ 53)"
    using assms by (simp only: of_nat_less_iff)
  then have "(of_nat m :: rat) < 2 ^ 53"
    by simp
  then have "of_nat m * 2 powi e < 2 ^ 53 * (2::rat) powi e"
    by (simp add: mult_strict_right_mono)
  also have "\<dots> = 2 powi (e + 53)"
    by (simp add: powi2_add)
  finally show ?thesis
    by (simp add: magnitude_def)
qed

lemma magnitude_grid:
  assumes "e \<le> ev"
  shows "magnitude mv ev = of_int (int mv * 2 ^ nat (ev - e)) * 2 powi e"
proof -
  have "(2::rat) powi ev = 2 powi ((ev - e) + e)"
    by simp
  also have "\<dots> = 2 powi (ev - e) * 2 powi e"
    by (simp only: powi2_add)
  also have "(2::rat) powi (ev - e) = 2 ^ nat (ev - e)"
    using assms by (simp add: power_int_def)
  finally show ?thesis
    by (simp add: magnitude_def)
qed

lemma grid_nearest:
  assumes x: "0 < x" and e: "e = max (- 1074) (ilog2 x - 52)"
    and mv: "mv < 2 ^ 53" and ev: "- 1074 \<le> ev"
  shows "\<bar>of_int (round_half_even (x / 2 powi e)) * 2 powi e - x\<bar> \<le> \<bar>magnitude mv ev - x\<bar>"
proof (cases "e \<le> ev")
  case True
  show ?thesis
    unfolding magnitude_grid [OF True] by (rule grid_step) simp
next
  case False
  with ev e have e': "e = ilog2 x - 52"
    by (simp add: max_def split: if_splits)
  have P: "2 powi (e + 52) \<le> x"
    using ilog2_bounds(1) [OF x] by (simp add: e')
  have "magnitude mv ev < 2 powi (ev + 53)"
    by (rule magnitude_less [OF mv])
  also have "\<dots> \<le> 2 powi (e + 52)"
    using False by (intro power_int_increasing) simp_all
  finally have V: "magnitude mv ev < 2 powi (e + 52)" .
  have "(2::rat) powi (e + 52) = of_int (2 ^ 52) * 2 powi e"
    by (simp add: powi2_add)
  then have "\<bar>of_int (round_half_even (x / 2 powi e)) * 2 powi e - x\<bar> \<le> \<bar>2 powi (e + 52) - x\<bar>"
    using grid_step [of "2 powi e" x "2 ^ 52"] by simp
  also have "\<dots> \<le> \<bar>magnitude mv ev - x\<bar>"
    using P V by simp
  finally show ?thesis .
qed

lemma magnitude_max:
  assumes mv: "mv < 2 ^ 53" and ev: "ev \<le> 971"
  shows "magnitude mv ev \<le> (2 ^ 53 - 1) * 2 powi 971"
proof -
  have "int mv \<le> 2 ^ 53 - 1"
    using mv by simp
  then have "(of_int (int mv) :: rat) \<le> of_int (2 ^ 53 - 1)"
    by (simp only: of_int_le_iff)
  then have m: "(of_nat mv :: rat) \<le> 2 ^ 53 - 1"
    by simp
  have p: "(2::rat) powi ev \<le> 2 powi 971"
    using ev by (intro power_int_increasing) simp_all
  have "of_nat mv * (2::rat) powi ev \<le> (2 ^ 53 - 1) * 2 powi 971"
    using m p by (intro mult_mono) simp_all
  then show ?thesis
    by (simp only: magnitude_def)
qed

lemma near_double_below_overflow:
  assumes mv: "mv < 2 ^ 53" and ev: "ev \<le> 971"
    and close: "\<bar>magnitude mv ev - x\<bar> \<le> 1 / 20000"
  shows "x < (2 ^ 53 - 1 / 2) * 2 powi 971"
proof -
  have one: "(1::rat) \<le> 2 powi 971"
    by (rule one_le_power_int) simp_all
  have "x \<le> magnitude mv ev + 1 / 20000"
    using close by linarith
  also have "\<dots> \<le> (2 ^ 53 - 1) * 2 powi 971 + 1 / 20000"
    using magnitude_max [OF mv ev] by simp
  also have "\<dots> < (2 ^ 53 - 1) * 2 powi 971 + (1 / 2) * 2 powi 971"
    using one by simp
  also have "\<dots> = (2 ^ 53 - 1 / 2) * 2 powi 971"
    by (simp add: algebra_simps)
  finally show ?thesis .
qed

lemma round_to_double_near:
  assumes mv: "mv < 2 ^ 53" and ev: "- 1074 \<le> ev" "ev \<le> 971"
    and x: "0 \<le> x" and close: "\<bar>magnitude mv ev - x\<bar> \<le> 1 / 20000"
  shows "\<exists>m e. round_to_double s x = Finite s m e \<and> is_double (Finite s m e) \<and>
           \<bar>magnitude m e - x\<bar> \<le> \<bar>magnitude mv ev - x\<bar>"
proof (cases "x = 0")
  case True
  then have "round_to_double s x = Finite s 0 0"
    by (simp add: round_to_double_def)
  moreover have "is_double (Finite s 0 0)"
    by simp
  moreover have "\<bar>magnitude 0 0 - x\<bar> \<le> \<bar>magnitude mv ev - x\<bar>"
    using True by (simp add: magnitude_def)
  ultimately show ?thesis by blast
next
  case False
  with x have xp: "0 < x" by simp
  define e where "e = max (- 1074) (ilog2 x - 52)"
  define p where "p = (2::rat) powi e"
  define m0 where "m0 = round_half_even (x / p)"
  have pp: "0 < p" by (simp add: p_def)
  have el: "- 1074 \<le> e" by (simp add: e_def)
  have near: "\<bar>of_int m0 * p - x\<bar> \<le> \<bar>magnitude mv ev - x\<bar>"
    unfolding m0_def p_def by (rule grid_nearest [OF xp e_def mv ev(1)])
  have m0_nonneg: "0 \<le> m0"
    unfolding m0_def using x pp by (intro rhe_nonneg) simp
  have "x < 2 powi (ilog2 x + 1)"
    by (rule ilog2_bounds(2) [OF xp])
  also have "\<dots> \<le> 2 powi (e + 53)"
    by (intro power_int_increasing) (simp_all add: e_def)
  also have "\<dots> = 2 ^ 53 * p"
    by (simp add: powi2_add p_def)
  finally have "x / p < 2 ^ 53"
    using pp by (simp add: pos_divide_less_eq)
  then have "x / p \<le> of_int (2 ^ 53)"
    by simp
  then have m0_le: "m0 \<le> 2 ^ 53"
    unfolding m0_def by (rule rhe_mono_le_int)
  have below: "x < (2 ^ 53 - 1 / 2) * 2 powi 971"
    by (rule near_double_below_overflow [OF mv ev(2) close])
  have e_le: "e \<le> 971"
  proof (rule ccontr)
    assume "\<not> e \<le> 971"
    then have big: "971 < e" by simp
    then have "e = ilog2 x - 52"
      by (simp add: e_def max_def split: if_splits)
    then have "2 powi (e + 52) \<le> x"
      using ilog2_bounds(1) [OF xp] by simp
    moreover have "(2::rat) powi (971 + 53) \<le> 2 powi (e + 52)"
      using big by (intro power_int_increasing) simp_all
    moreover have "(2::rat) powi (971 + 53) = 2 ^ 53 * 2 powi 971"
      by (simp only: powi2_add) simp
    moreover have "(2 ^ 53 - 1 / 2) * 2 powi 971 < 2 ^ 53 * (2::rat) powi 971"
      by (simp add: mult_strict_right_mono)
    ultimately show False
      using below by linarith
  qed
  have not_top: "m0 < 2 ^ 53" if "971 \<le> e"
  proof -
    from that e_le have e9: "e = 971" by simp
    have y1: "x / p < 2 ^ 53 - 1 / 2"
      using below pp by (simp add: pos_divide_less_eq p_def e9)
    have "of_int m0 \<le> x / p + 1 / 2"
      using rhe_dist [of "x / p"] unfolding m0_def by linarith
    also have "\<dots> < (2 ^ 53 - 1 / 2) + 1 / 2"
      using y1 by (rule add_strict_right_mono)
    also have "\<dots> = 2 ^ 53"
      by simp
    finally have "(of_int m0 :: rat) < of_int (2 ^ 53)"
      by (simp only: of_int_power of_int_numeral)
    then show ?thesis
      by (simp only: of_int_less_iff)
  qed
  have r: "round_to_double s x =
      (if nat m0 = 2 ^ 53
       then (if 971 \<le> e then Infinity s else Finite s (2 ^ 52) (e + 1))
       else if 971 < e then Infinity s else Finite s (nat m0) e)"
    using False by (simp add: round_to_double_def Let_def e_def [symmetric] p_def [symmetric]
        m0_def [symmetric])
  show ?thesis
  proof (cases "nat m0 = 2 ^ 53")
    case True
    have "m0 = int (nat m0)"
      using m0_nonneg by simp
    also have "\<dots> = 2 ^ 53"
      by (simp only: True of_nat_power of_nat_numeral)
    finally have m0: "m0 = 2 ^ 53" .
    with not_top have e97: "\<not> 971 \<le> e" by auto
    have res: "round_to_double s x = Finite s (2 ^ 52) (e + 1)"
      using True e97 by (simp add: r)
    have "magnitude (2 ^ 52) (e + 1) = of_int m0 * p"
      by (simp add: magnitude_def powi2_add p_def m0)
    with near have "\<bar>magnitude (2 ^ 52) (e + 1) - x\<bar> \<le> \<bar>magnitude mv ev - x\<bar>"
      by simp
    moreover have "is_double (Finite s (2 ^ 52) (e + 1))"
      using el e97 by simp
    ultimately show ?thesis
      using res by blast
  next
    case False
    have "m0 \<noteq> 2 ^ 53"
    proof
      assume "m0 = 2 ^ 53"
      then have "nat m0 = nat (2 ^ 53)"
        by (simp only:)
      also have "\<dots> = 2 ^ 53"
        by (simp add: nat_power_eq)
      finally show False
        using False by simp
    qed
    with m0_le have lt: "m0 < 2 ^ 53"
      by (rule order.not_eq_order_implies_strict [rotated])
    have res: "round_to_double s x = Finite s (nat m0) e"
      using e_le False by (simp add: r)
    have "magnitude (nat m0) e = of_int m0 * p"
      using m0_nonneg by (simp add: magnitude_def p_def)
    with near have "\<bar>magnitude (nat m0) e - x\<bar> \<le> \<bar>magnitude mv ev - x\<bar>"
      by simp
    moreover have "is_double (Finite s (nat m0) e)"
      using el e_le lt m0_nonneg by (simp add: nat_less_iff)
    ultimately show ?thesis
      using res by blast
  qed
qed

subsection \<open>Parsing what the formatter prints\<close>

lemma index_of_nth:
  "distinct xs \<Longrightarrow> i < length xs \<Longrightarrow> index_of (xs ! i) xs = Some i"
proof (induction xs arbitrary: i)
  case Nil
  then show ?case by simp
next
  case (Cons x xs)
  show ?case
  proof (cases i)
    case 0
    then show ?thesis by simp
  next
    case (Suc j)
    with Cons.prems have "xs ! j \<noteq> x" "distinct xs" "j < length xs"
      by auto
    with Cons.IH [of j] Suc show ?thesis by simp
  qed
qed

lemma digit_val_digit_char [simp]: "digit_val (digit_char d) = Some (d mod 10)"
proof -
  have "distinct ''0123456789''" by simp
  moreover have "d mod 10 < length ''0123456789''" by simp
  ultimately have "index_of (''0123456789'' ! (d mod 10)) ''0123456789'' = Some (d mod 10)"
    by (rule index_of_nth)
  then show ?thesis
    by (simp only: digit_val_def digit_char_def digits_def)
qed

lemma digit_char_digit: "digit_char d \<in> set digits"
proof -
  have "d mod 10 < length ''0123456789''" by simp
  then have "''0123456789'' ! (d mod 10) \<in> set ''0123456789''"
    by (rule nth_mem)
  then show ?thesis
    by (simp only: digit_char_def digits_def)
qed

lemma digit_not_point: "c \<in> set digits \<Longrightarrow> c \<noteq> CHR ''.'' \<and> c \<noteq> CHR ''-''"
  by (auto simp: digits_def)

lemma str_nat_digits: "set (str_nat n) \<subseteq> set digits"
proof (induction n rule: str_nat.induct)
  case (1 n)
  show ?case
  proof (cases "n < 10")
    case True
    then show ?thesis
      using digit_char_digit [of n] by (subst str_nat.simps) simp
  next
    case False
    with 1 digit_char_digit [of "n mod 10"] show ?thesis
      by (subst str_nat.simps) simp
  qed
qed

lemma str_nat_nonempty: "str_nat n \<noteq> []"
  by (subst str_nat.simps) simp

lemma digits_val_append:
  "digits_val acc (xs @ ys) =
     (case digits_val acc xs of None \<Rightarrow> None | Some a \<Rightarrow> digits_val a ys)"
  by (induction xs arbitrary: acc) (simp_all split: option.split)

lemma digits_val_str_nat: "digits_val 0 (str_nat n) = Some n"
proof (induction n rule: str_nat.induct)
  case (1 n)
  show ?case
  proof (cases "n < 10")
    case True
    then show ?thesis
      by (subst str_nat.simps) simp
  next
    case False
    with 1 have "digits_val 0 (str_nat (n div 10)) = Some (n div 10)"
      by simp
    with False show ?thesis
      by (subst str_nat.simps) (simp add: digits_val_append)
  qed
qed

lemma decimal_digits4:
  assumes "k < 10000"
  shows "10 * (10 * (10 * (k div 1000 mod 10) + k div 100 mod 10) + k div 10 mod 10) + k mod 10 =
    (k::nat)"
proof -
  define A B C D where "A = k div 1000 mod 10" and "B = k div 100 mod 10"
    and "C = k div 10 mod 10" and "D = k mod 10"
  have a: "k mod 100 = 10 * C + D"
    using mod_mult2_eq [of k 10 10] by (simp add: C_def D_def)
  have b: "k mod 1000 = 100 * B + k mod 100"
    using mod_mult2_eq [of k 100 10] by (simp add: B_def)
  have c: "k mod 10000 = 1000 * A + k mod 1000"
    using mod_mult2_eq [of k 1000 10] by (simp add: A_def)
  have "k = k mod 10000"
    using assms by simp
  also have "\<dots> = 1000 * A + (100 * B + (10 * C + D))"
    by (simp only: c b a)
  finally have "10 * (10 * (10 * A + B) + C) + D = k"
    by simp
  then show ?thesis
    by (simp only: A_def B_def C_def D_def)
qed

lemma digits_val_pad4:
  assumes "k < 10000"
  shows "digits_val 0 (pad4 k) = Some k"
proof -
  have "digits_val 0 (pad4 k) =
      Some (10 * (10 * (10 * (k div 1000 mod 10) + k div 100 mod 10) + k div 10 mod 10) + k mod 10)"
    by (simp add: pad4_def)
  then show ?thesis
    by (simp only: decimal_digits4 [OF assms])
qed

lemma pad4_shape: "length (pad4 k) = 4 \<and> list_all (\<lambda>c. c \<in> set digits) (pad4 k)"
  by (simp add: pad4_def digit_char_digit)

lemma fixed4_split:
  "takeWhile (\<lambda>c. c \<noteq> CHR ''.'') (fixed4 N) = str_nat (N div 10000)"
  "dropWhile (\<lambda>c. c \<noteq> CHR ''.'') (fixed4 N) = ''.'' @ pad4 (N mod 10000)"
proof -
  have d: "\<And>c. c \<in> set (str_nat (N div 10000)) \<Longrightarrow> c \<noteq> CHR ''.''"
    using str_nat_digits digit_not_point by blast
  show "takeWhile (\<lambda>c. c \<noteq> CHR ''.'') (fixed4 N) = str_nat (N div 10000)"
    unfolding fixed4_def using d by (subst takeWhile_append2) simp_all
  show "dropWhile (\<lambda>c. c \<noteq> CHR ''.'') (fixed4 N) = ''.'' @ pad4 (N mod 10000)"
    unfolding fixed4_def using d by (subst dropWhile_append2) simp_all
qed

lemma fixed4_point: "CHR ''.'' \<in> set (fixed4 N)"
  by (simp add: fixed4_def)

lemma fixed4_hd: "take 1 (fixed4 N) \<noteq> ''-''"
proof -
  obtain c cs where s: "str_nat (N div 10000) = c # cs"
    using str_nat_nonempty by (cases "str_nat (N div 10000)") auto
  then have "c \<in> set digits"
    using str_nat_digits [of "N div 10000"] by auto
  then have "c \<noteq> CHR ''-''"
    using digit_not_point by blast
  then show ?thesis
    by (simp add: fixed4_def s)
qed

lemma four_decimals_fixed4: "four_decimals (sign_str s @ fixed4 N)"
proof -
  have "dropWhile (\<lambda>c. c \<noteq> CHR ''.'') (sign_str s @ fixed4 N) = ''.'' @ pad4 (N mod 10000)"
    by (simp add: sign_str_def fixed4_split)
  then show ?thesis
    using pad4_shape [of "N mod 10000"] by (simp add: four_decimals_def fixed4_point)
qed

lemma py_float_fixed4:
  "py_float (sign_str s @ fixed4 N) = Some (round_to_double s (of_nat N / 10000))"
proof -
  have neg: "(take 1 (sign_str s @ fixed4 N) = ''-'') = s"
    using fixed4_hd [of N] by (simp add: sign_str_def)
  have body: "(if s then drop 1 (sign_str s @ fixed4 N) else sign_str s @ fixed4 N) = fixed4 N"
    by (simp add: sign_str_def)
  have ne: "fixed4 N \<noteq> ''inf''" "fixed4 N \<noteq> ''nan''"
    using fixed4_point [of N] by auto
  have B: "N mod 10000 < 10000" by simp
  have v: "(of_nat (N div 10000) :: rat) + of_nat (N mod 10000) / 10 ^ 4 = of_nat N / 10000"
  proof -
    have "(of_nat N :: rat) = of_nat (10000 * (N div 10000) + N mod 10000)"
      by simp
    also have "\<dots> = 10000 * of_nat (N div 10000) + of_nat (N mod 10000)"
      by (simp only: of_nat_add of_nat_mult of_nat_numeral)
    finally show ?thesis
      by simp
  qed
  have "py_float (sign_str s @ fixed4 N) =
      Some (round_to_double s (of_nat (N div 10000) + of_nat (N mod 10000) / 10 ^ 4))"
    unfolding py_float_def neg body Let_def
    using ne
    by (simp add: fixed4_split digits_val_str_nat digits_val_pad4 [OF B] str_nat_nonempty
        pad4_shape)
  then show ?thesis
    by (simp only: v)
qed

lemma abs_scale4: "\<bar>a * 10000 - b * 10000\<bar> = \<bar>a - b\<bar> * (10000::rat)"
  unfolding left_diff_distrib [symmetric] abs_mult by simp

lemma reround_same:
  assumes q: "of_int (round_half_even (V * 10000)) = q * 10000"
    and W: "\<bar>W - q\<bar> \<le> \<bar>V - q\<bar>"
  shows "round_half_even (W * 10000) = round_half_even (V * 10000)"
proof -
  define R where "R = round_half_even (V * 10000)"
  have e1: "of_int R = q * 10000"
    unfolding R_def by (rule q)
  have "\<bar>q - W\<bar> * 10000 \<le> \<bar>q - V\<bar> * 10000"
    using W by (simp only: abs_minus_commute [of q] mult_le_cancel_right_pos)
  then have le: "\<bar>of_int R - W * 10000\<bar> \<le> \<bar>of_int R - V * 10000\<bar>"
    by (simp only: e1 abs_scale4)
  have half: "\<bar>of_int R - V * 10000\<bar> \<le> 1 / 2"
    unfolding R_def by (rule rhe_dist)
  show ?thesis
  proof (cases "\<bar>of_int R - W * 10000\<bar> < 1 / 2")
    case True
    then show ?thesis
      unfolding R_def [symmetric] by (rule rhe_unique)
  next
    case False
    with le half have tieW: "\<bar>of_int R - W * 10000\<bar> = 1 / 2"
      and tieV: "\<bar>of_int R - V * 10000\<bar> = 1 / 2"
      by linarith+
    from tieV have "even R"
      unfolding R_def by (rule rhe_tie_even)
    with tieW show ?thesis
      unfolding R_def [symmetric] by (rule rhe_tie)
  qed
qed

lemma format_4f_reparse_finite:
  assumes "is_double (Finite s mv ev)"
  shows "\<exists>y. py_float (format_4f (Finite s mv ev)) = Some y \<and> is_double y \<and>
           format_4f y = format_4f (Finite s mv ev)"
proof -
  from assms have mv: "mv < 2 ^ 53" and ev: "- 1074 \<le> ev" "ev \<le> 971"
    by simp_all
  define V where "V = magnitude mv ev"
  define R where "R = round_half_even (V * 10000)"
  define q :: rat where "q = of_nat (nat R) / 10000"
  have Vn: "0 \<le> V"
    unfolding V_def by (rule magnitude_nonneg)
  have Rn: "0 \<le> R"
    unfolding R_def using Vn by (intro rhe_nonneg) simp
  have qn: "0 \<le> q"
    unfolding q_def by simp
  have e1: "of_int R = q * 10000"
    using Rn by (simp add: q_def)
  have "\<bar>of_int R - V * 10000\<bar> \<le> 1 / 2"
    unfolding R_def by (rule rhe_dist)
  then have "\<bar>q - V\<bar> * 10000 \<le> 1 / 2"
    by (simp only: e1 abs_scale4)
  then have "\<bar>q - V\<bar> \<le> 1 / 20000"
    by simp
  then have close: "\<bar>magnitude mv ev - q\<bar> \<le> 1 / 20000"
    unfolding V_def [symmetric] by (simp only: abs_minus_commute)
  from round_to_double_near [OF mv ev qn close, of s]
  obtain m e where res: "round_to_double s q = Finite s m e"
    and dbl: "is_double (Finite s m e)"
    and near: "\<bar>magnitude m e - q\<bar> \<le> \<bar>V - q\<bar>"
    unfolding V_def by blast
  have "round_half_even (magnitude m e * 10000) = round_half_even (V * 10000)"
    using e1 near unfolding R_def by (rule reround_same)
  then have same: "format_4f (Finite s m e) = format_4f (Finite s mv ev)"
    unfolding V_def by (simp only: format_4f.simps)
  have "py_float (format_4f (Finite s mv ev)) = Some (round_to_double s q)"
    unfolding format_4f.simps py_float_fixed4 q_def R_def V_def ..
  with res dbl same show ?thesis
    by (simp only: exI [of _ "Finite s m e"] simp_thms)
qed

lemma format_4f_reparse:
  assumes "is_double x"
  shows "\<exists>y. py_float (format_4f x) = Some y \<and> is_double y \<and> format_4f y = format_4f x"
proof (cases x)
  case (Finite s m e)
  with assms format_4f_reparse_finite [of s m e] show ?thesis
    by simp
next
  case (Infinity s)
  have "py_float (format_4f (Infinity s)) = Some (Infinity s)"
    by (cases s) (simp_all add: py_float_def sign_str_def)
  with Infinity show ?thesis by simp
next
  case NaN
  have "py_float (format_4f NaN) = Some NaN"
    by (simp add: py_float_def)
  with NaN show ?thesis by simp
qed

subsection \<open>One half, formatted and read back\<close>

lemma bitlen_1 [simp]: "bitlen 1 = 1"
  by (simp add: bitlen_alt_def)

lemma bitlen_2 [simp]: "bitlen 2 = 2"
  using bitlen_pow2 [of 1 1] by simp

lemma py_float_half: "py_float ''0.5000'' = Some (round_to_double False (1 / 2))"
  by (simp add: py_float_def Let_def digit_val_def digits_def)

lemma ilog2_half: "ilog2 (1 / 2) = - 1"
proof -
  have "(1 / 2 :: rat) = Fract 1 2"
    by (simp add: Fract_of_int_quotient)
  moreover have "quotient_of (Fract 1 2) = (1, 2)"
    by (simp add: quotient_of_Fract Rat.normalize_def)
  ultimately have "quotient_of (1 / 2) = (1, 2)"
    by (simp only:)
  then show ?thesis
    by (simp add: ilog2_def power_int_minus)
qed

lemma round_to_double_half: "round_to_double False (1 / 2) = Finite False (2 ^ 52) (- 53)"
proof -
  have "(1 / 2) / (2::rat) powi (- 53) = of_int (2 ^ 52)"
    by (simp add: power_int_minus)
  then have "round_half_even ((1 / 2) / 2 powi (- 53)) = 2 ^ 52"
    by (simp only: rhe_of_int)
  then show ?thesis
    by (simp add: round_to_double_def ilog2_half Let_def nat_power_eq)
qed

section \<open>The claims\<close>

text \<open>
  Claim C1. Under the caller contract of the table (the adapter has been started, so
  \<open>metrics\<close> is set, and there are as many tracked names as values: the smoothed loss
  and the last metrics), \<^verbatim>\<open>on_epoch_end\<close> at the 0-based epoch index \<open>i\<close> dispatches
  if and only if \<open>freq > 0\<close> and \<open>(i + 1) mod freq = 0\<close>, and then it dispatches exactly
  the banner, the line \<^verbatim>\<open>Epoch min(i+1, n_epochs)/n_epochs\<close> and the table. With
  \<open>freq = 2\<close> and \<open>n_epochs = 4\<close> the indices 0 to 3 dispatch exactly the reports of
  epochs 2 and 4; with \<open>freq = 0\<close> nothing is ever dispatched.
\<close>

theorem on_epoch_end_dispatches_iff:
  assumes "metrics self = Some names" and "length names = Suc (length (last_metrics ka))"
  shows "(let table = ''```'' @ newline @
                 ts names (map format_metric (smooth_loss ka # last_metrics ka)) @ newline @ ''```'';
              sent = (\<lambda>i. dispatched w (world_of (on_epoch_end ts self (ka\<lparr>epoch := i\<rparr>) w)))
          in (\<forall>i. sent i \<noteq> [] \<longleftrightarrow> 0 < freq self \<and> (i + 1) mod freq self = 0) \<and>
             (\<forall>i. 0 < freq self \<and> (i + 1) mod freq self = 0 \<longrightarrow>
                sent i =
                  [(url self,
                    \<lparr>json_text = banner self @ ''Epoch '' @ str_int (min (i + 1) (n_epochs ka)) @ ''/'' @
                       str_int (n_epochs ka) @ newline @ table,
                     json_mrkdwn = True\<rparr>)]) \<and>
             (freq self = 2 \<and> n_epochs ka = 4 \<longrightarrow>
                map (\<lambda>i. map (\<lambda>p. json_text (snd p)) (sent i)) [0, 1, 2, 3] =
                  [[], [banner self @ ''Epoch 2/4'' @ newline @ table],
                   [], [banner self @ ''Epoch 4/4'' @ newline @ table]]) \<and>
             (freq self = 0 \<longrightarrow> (\<forall>i. sent i = [])))"
proof -
  have a: "metrics self = Some names"
    and b: "\<And>i. length names = Suc (length (last_metrics (ka\<lparr>epoch := i\<rparr>)))"
    using assms by simp_all
  have yes: "dispatched w (world_of (on_epoch_end ts self (ka\<lparr>epoch := i\<rparr>) w)) =
      [(url self,
        \<lparr>json_text = banner self @ ''Epoch '' @ str_int (min (i + 1) (n_epochs ka)) @ ''/'' @
               str_int (n_epochs ka) @ newline @ ''```'' @ newline @
               ts names (map format_metric (smooth_loss ka # last_metrics ka)) @ newline @ ''```'',
         json_mrkdwn = True\<rparr>)]"
    if "0 < freq self \<and> (i + 1) mod freq self = 0" for i
    using that send_metrics_dispatched [OF a b [of i], where w = w and ts = ts and m = None]
    by (simp add: on_epoch_end_def)
  have no: "dispatched w (world_of (on_epoch_end ts self (ka\<lparr>epoch := i\<rparr>) w)) = []"
    if "\<not> (0 < freq self \<and> (i + 1) mod freq self = 0)" for i
    using that by (auto simp: on_epoch_end_def world_of_def)
  have iff: "dispatched w (world_of (on_epoch_end ts self (ka\<lparr>epoch := i\<rparr>) w)) \<noteq> [] \<longleftrightarrow>
      0 < freq self \<and> (i + 1) mod freq self = 0" for i
    using yes [of i] no [of i] by (cases "0 < freq self \<and> (i + 1) mod freq self = 0") simp_all
  have inst: "map (\<lambda>i. map (\<lambda>p. json_text (snd p))
          (dispatched w (world_of (on_epoch_end ts self (ka\<lparr>epoch := i\<rparr>) w)))) [0, 1, 2, 3] =
        [[], [banner self @ ''Epoch 2/4'' @ newline @ ''```'' @ newline @
               ts names (map format_metric (smooth_loss ka # last_metrics ka)) @ newline @ ''```''],
         [], [banner self @ ''Epoch 4/4'' @ newline @ ''```'' @ newline @
               ts names (map format_metric (smooth_loss ka # last_metrics ka)) @ newline @ ''```'']]"
    if "freq self = 2 \<and> n_epochs ka = 4"
    using that yes [of 1] yes [of 3] no [of 0] no [of 2] by simp
  have zero: "dispatched w (world_of (on_epoch_end ts self (ka\<lparr>epoch := i\<rparr>) w)) = []"
    if "freq self = 0" for i
    using that no [of i] by simp
  show ?thesis
    unfolding Let_def using yes iff inst zero by blast
qed

theorem on_epoch_end_dispatches_iff_witness:
  "metrics example_callback = Some [''train_loss'', ''valid_loss'', ''accuracy''] \<and>
   length [''train_loss'', ''valid_loss'', ''accuracy''] = Suc (length (last_metrics example_kwargs)) \<and>
   dispatched example_world
     (world_of (on_epoch_end example_to_string example_callback (example_kwargs\<lparr>epoch := 1\<rparr>)
        example_world)) \<noteq> [] \<and>
   dispatched example_world
     (world_of (on_epoch_end example_to_string example_callback (example_kwargs\<lparr>epoch := 2\<rparr>)
        example_world)) = []"
proof -
  have h1: "metrics example_callback = Some [''train_loss'', ''valid_loss'', ''accuracy'']"
    by (simp add: example_callback_def)
  have h2: "length [''train_loss'', ''valid_loss'', ''accuracy''] =
      Suc (length (last_metrics example_kwargs))"
    by (simp add: example_kwargs_def)
  have f: "freq example_callback = 2"
    by (simp add: example_callback_def)
  note t = on_epoch_end_dispatches_iff [OF h1 h2, where w = example_world
      and ts = example_to_string, unfolded Let_def, THEN conjunct1]
  from t [THEN spec, of 1] t [THEN spec, of 2] h1 h2 show ?thesis
    by (simp add: f)
qed

text \<open>
  Claim C2. Without an exception, and under the same caller contract,
  \<^verbatim>\<open>on_train_end\<close> dispatches exactly one message: \<^verbatim>\<open>*Training complete*\<close> followed by
  the epoch line and the metrics table if \<open>freq = 0\<close> or \<open>n_epochs mod freq > 0\<close>, and
  the bare \<^verbatim>\<open>*Training complete*\<close> otherwise.
\<close>

theorem on_train_end_success_dispatch:
  assumes "exception ka = None"
    and "metrics self = Some names" and "length names = Suc (length (last_metrics ka))"
  shows "dispatched w (world_of (on_train_end ts self ka w)) =
     [(url self,
       \<lparr>json_text =
          (if freq self = 0 \<or> 0 < n_epochs ka mod freq self
           then banner self @ ''*Training complete*'' @ newline @
                ''Epoch '' @ str_int (min (epoch ka + 1) (n_epochs ka)) @ ''/'' @
                str_int (n_epochs ka) @ newline @
                ''```'' @ newline @
                ts names (map format_metric (smooth_loss ka # last_metrics ka)) @ newline @ ''```''
           else banner self @ ''*Training complete*''),
        json_mrkdwn = True\<rparr>)]"
proof (cases "freq self = 0 \<or> 0 < n_epochs ka mod freq self")
  case True
  then show ?thesis
    using assms(1) send_metrics_dispatched [OF assms(2,3), of w ts "Some [''*Training complete*'']"]
    by (simp add: on_train_end_def)
next
  case False
  then show ?thesis
    using assms(1) send_dispatched [of w self "Lines [''*Training complete*'']"]
    by (simp add: on_train_end_def)
qed

theorem on_train_end_success_dispatch_witness:
  "exception example_kwargs = None \<and>
   metrics example_callback = Some [''train_loss'', ''valid_loss'', ''accuracy''] \<and>
   length [''train_loss'', ''valid_loss'', ''accuracy''] = Suc (length (last_metrics example_kwargs)) \<and>
   dispatched example_world
     (world_of (on_train_end example_to_string example_callback example_kwargs example_world)) =
   [(''https://hooks.example/T'',
     \<lparr>json_text = ''[`proj abcdef`] *Training complete*'', json_mrkdwn = True\<rparr>)]"
proof -
  have h0: "exception example_kwargs = None"
    by (simp add: example_kwargs_def)
  have h1: "metrics example_callback = Some [''train_loss'', ''valid_loss'', ''accuracy'']"
    by (simp add: example_callback_def)
  have h2: "length [''train_loss'', ''valid_loss'', ''accuracy''] =
      Suc (length (last_metrics example_kwargs))"
    by (simp add: example_kwargs_def)
  have f: "freq example_callback = 2" "n_epochs example_kwargs = 4"
    "url example_callback = ''https://hooks.example/T''"
    "banner example_callback = ''[`proj abcdef`] ''"
    by (simp_all add: example_callback_def example_kwargs_def banner_def)
  from on_train_end_success_dispatch [OF h0 h1 h2, where w = example_world
      and ts = example_to_string] h0 h1 h2
  show ?thesis
    by (simp add: f)
qed

text \<open>
  Claim C3, as stated: in no case does \<^verbatim>\<open>sendNotification\<close> raise to the caller. The
  handler is \<^verbatim>\<open>except Exception\<close>: when the call of \<^verbatim>\<open>requests.post\<close> is interrupted by
  \<^verbatim>\<open>KeyboardInterrupt\<close>, which is not an instance of \<^verbatim>\<open>Exception\<close>, the exception
  leaves \<^verbatim>\<open>sendNotification\<close> and no boolean is returned.
\<close>

theorem sendNotification_raises_counterexample:
  "fst (sendNotification ''https://hooks.example/T'' ''hello''
     (example_world\<lparr>transport := (\<lambda>u d. Inl (PyExc ''KeyboardInterrupt'' [] False))\<rparr>)) =
     Inl (PyExc ''KeyboardInterrupt'' [] False) \<and>
   fst (sendNotification ''https://hooks.example/T'' ''hello''
     (example_world\<lparr>transport := (\<lambda>u d. Inl (PyExc ''KeyboardInterrupt'' [] False))\<rparr>)) \<noteq>
     Inr False"
  by (simp add: sendNotification_def requests_post_def example_world_def)

text \<open>
  Claim C3, amended. When the transport answers, \<^verbatim>\<open>sendNotification\<close> returns whether the
  status code is exactly 200 (so \<open>False\<close> on any other status). When the call raises an
  instance of \<^verbatim>\<open>Exception\<close>, as every transport-level exception of \<^verbatim>\<open>requests\<close> is, the
  exception is caught and \<open>False\<close> is returned. Only an exception that is not an instance
  of \<^verbatim>\<open>Exception\<close> reaches the caller.
\<close>

theorem sendNotification_outcome:
  "(case transport w u \<lparr>json_text = m, json_mrkdwn = True\<rparr> of
      Inr res \<Rightarrow> fst (sendNotification u m w) = Inr (status_code res = 200)
    | Inl e \<Rightarrow> fst (sendNotification u m w) = (if is_Exception e then Inr False else Inl e))"
  by (simp add: sendNotification_def requests_post_def split: sum.split)

theorem sendNotification_outcome_witness:
  "fst (sendNotification ''https://hooks.example/T'' ''hello'' example_world) = Inr True \<and>
   fst (sendNotification ''https://hooks.example/T'' ''hello''
     (example_world\<lparr>transport := (\<lambda>u d. Inr \<lparr>status_code = 500, content = ''no_service''\<rparr>)\<rparr>)) =
     Inr False \<and>
   fst (sendNotification ''https://hooks.example/T'' ''hello''
     (example_world\<lparr>transport := (\<lambda>u d. Inl (PyExc ''ConnectionError'' ''refused'' True))\<rparr>)) =
     Inr False"
  using sendNotification_outcome [where w = example_world
      and u = "''https://hooks.example/T''" and m = "''hello''"]
    sendNotification_outcome [where
      w = "example_world\<lparr>transport := (\<lambda>u d. Inr \<lparr>status_code = 500, content = ''no_service''\<rparr>)\<rparr>"
      and u = "''https://hooks.example/T''" and m = "''hello''"]
    sendNotification_outcome [where
      w = "example_world\<lparr>transport := (\<lambda>u d. Inl (PyExc ''ConnectionError'' ''refused'' True))\<rparr>"
      and u = "''https://hooks.example/T''" and m = "''hello''"]
  by (simp add: example_world_def)

text \<open>
  Claim C4. The resolver is claimed to read the environment variable only when
  \<open>check_env\<close> is true, as the docstring of \<^verbatim>\<open>read_webhook_url\<close> says. The function
  never looks at \<open>check_env\<close>: called with \<open>check_env = False\<close> while the variable is
  set, it returns the variable's value and does not prompt (the terminal input stays
  unread).
\<close>

theorem read_webhook_url_ignores_check_env:
  "read_webhook_url False False
     (example_world\<lparr>environ := [ENV_KEY \<mapsto> ''https://hooks.example/E''],
                    tty_input := [''https://typed.example/P'']\<rparr>) =
   (Inr ''https://hooks.example/E'',
    example_world\<lparr>environ := [ENV_KEY \<mapsto> ''https://hooks.example/E''],
                   tty_input := [''https://typed.example/P'']\<rparr>)"
  by (simp add: read_webhook_url_def)

text \<open>
  Claim C5. With an exception present, whatever the frequency, \<^verbatim>\<open>on_train_end\<close>
  dispatches one message: the banner, the failure line, the exception's text between
  backticks, and either the formatted traceback in a code block or
  \<^verbatim>\<open>Failed to detect stacktrace\<close>. It does not raise the exception again: it returns
  normally whenever the post answers or fails with an instance of \<^verbatim>\<open>Exception\<close>, and
  otherwise what propagates is what \<^verbatim>\<open>requests.post\<close> raised, never the training
  exception (which fastai catches as an \<^verbatim>\<open>Exception\<close>).
\<close>

theorem on_train_end_exception_dispatch:
  assumes "exception ka = Some ex"
  shows "(let body = \<lparr>json_text = banner self @ ''*Training failed with exception:'' @ newline @
                 ''`'' @ exc_text ex @ ''`'' @ newline @
                 (case last_traceback w of
                    Some tb \<Rightarrow> ''```'' @ newline @ join newline tb @ newline @ ''```''
                  | None \<Rightarrow> ''Failed to detect stacktrace''),
               json_mrkdwn = True\<rparr>
          in dispatched w (world_of (on_train_end ts self ka w)) = [(url self, body)] \<and>
             result_of (on_train_end ts self ka w) =
               (case transport w (url self) body of
                  Inr res \<Rightarrow> Inr ()
                | Inl e \<Rightarrow> if is_Exception e then Inr () else Inl e) \<and>
             (is_Exception ex \<longrightarrow> result_of (on_train_end ts self ka w) \<noteq> Inl ex))"
proof -
  define body where "body = \<lparr>json_text = banner self @ ''*Training failed with exception:'' @
      newline @ ''`'' @ exc_text ex @ ''`'' @ newline @
      (case last_traceback w of
         Some tb \<Rightarrow> ''```'' @ newline @ join newline tb @ newline @ ''```''
       | None \<Rightarrow> ''Failed to detect stacktrace''),
      json_mrkdwn = True\<rparr>"
  have d: "dispatched w (world_of (on_train_end ts self ka w)) = [(url self, body)]"
    using assms by (simp add: on_train_end_def Let_def send_dispatched body_def)
  have r: "result_of (on_train_end ts self ka w) =
      (case transport w (url self) body of
         Inr res \<Rightarrow> Inr ()
       | Inl e \<Rightarrow> if is_Exception e then Inr () else Inl e)"
    using assms by (simp add: on_train_end_def Let_def send_result body_def)
  have n: "result_of (on_train_end ts self ka w) \<noteq> Inl ex" if "is_Exception ex"
    using that by (auto simp: r split: sum.split)
  from d r n show ?thesis
    unfolding Let_def body_def [symmetric] by blast
qed

theorem on_train_end_exception_dispatch_witness:
  "exception (example_kwargs\<lparr>exception := Some (PyExc ''RuntimeError'' ''CUDA out of memory'' True)\<rparr>) =
     Some (PyExc ''RuntimeError'' ''CUDA out of memory'' True) \<and>
   result_of (on_train_end example_to_string example_callback
     (example_kwargs\<lparr>exception := Some (PyExc ''RuntimeError'' ''CUDA out of memory'' True)\<rparr>)
     example_world) = Inr () \<and>
   map (\<lambda>p. json_text (snd p))
     (dispatched example_world
        (world_of (on_train_end example_to_string example_callback
           (example_kwargs\<lparr>exception := Some (PyExc ''RuntimeError'' ''CUDA out of memory'' True)\<rparr>)
           example_world))) =
   [''[`proj abcdef`] *Training failed with exception:'' @ newline @
    ''`CUDA out of memory`'' @ newline @ ''Failed to detect stacktrace'']"
proof -
  let ?ka = "example_kwargs\<lparr>exception := Some (PyExc ''RuntimeError'' ''CUDA out of memory'' True)\<rparr>"
  have h: "exception ?ka = Some (PyExc ''RuntimeError'' ''CUDA out of memory'' True)"
    by simp
  have b: "banner example_callback = ''[`proj abcdef`] ''"
    "last_traceback example_world = None"
    "transport example_world = (\<lambda>u d. Inr \<lparr>status_code = 200, content = ''ok''\<rparr>)"
    by (simp_all add: banner_def example_callback_def example_world_def)
  from on_train_end_exception_dispatch [OF h, where w = example_world
      and ts = example_to_string and self = example_callback] h
  show ?thesis
    by (simp add: b Let_def)
qed

text \<open>
  Claim C6, as stated: every numeric input is formatted with exactly four digits after
  the decimal point. The float NaN (a loss that has diverged) is formatted as \<^verbatim>\<open>nan\<close>,
  which has no decimal point at all.
\<close>

theorem format_metric_nan_counterexample:
  "is_double NaN \<and> format_metric (Num NaN) = ''nan'' \<and> \<not> four_decimals (format_metric (Num NaN))"
  by (simp add: four_decimals_def)

text \<open>
  Claim C6, amended. For every finite float or zero-dimensional tensor the formatted
  string has exactly four digits after the decimal point; NaN is formatted as \<^verbatim>\<open>nan\<close>
  and the infinities as \<^verbatim>\<open>inf\<close> and \<^verbatim>\<open>-inf\<close>, none of which has a decimal point. For
  every float, finite or not, the string reads back as a float (\<^verbatim>\<open>float(s)\<close>, correctly
  rounded to binary64), and formatting that float gives the same string again.
\<close>

theorem format_metric_four_decimals_idempotent:
  assumes "is_double (float_of v)"
  shows "(is_finite (float_of v) \<longrightarrow> four_decimals (format_metric v)) \<and>
     (float_of v = NaN \<longrightarrow> format_metric v = ''nan'') \<and>
     (float_of v = Infinity False \<longrightarrow> format_metric v = ''inf'') \<and>
     (float_of v = Infinity True \<longrightarrow> format_metric v = ''-inf'') \<and>
     (\<not> is_finite (float_of v) \<longrightarrow>
        CHR ''.'' \<notin> set (format_metric v) \<and> \<not> four_decimals (format_metric v)) \<and>
     (\<exists>y. py_float (format_metric v) = Some y \<and> is_double y \<and>
          format_metric (Num y) = format_metric v)"
proof -
  have fm: "format_metric v = format_4f (float_of v)"
    by (cases v) simp_all
  have fin: "is_finite (float_of v) \<longrightarrow> four_decimals (format_metric v)"
    unfolding fm by (cases "float_of v") (simp_all add: four_decimals_fixed4)
  have nan: "float_of v = NaN \<longrightarrow> format_metric v = ''nan''"
    unfolding fm by simp
  have pinf: "float_of v = Infinity False \<longrightarrow> format_metric v = ''inf''"
    unfolding fm by (simp add: sign_str_def)
  have ninf: "float_of v = Infinity True \<longrightarrow> format_metric v = ''-inf''"
    unfolding fm by (simp add: sign_str_def)
  have nopoint: "\<not> is_finite (float_of v) \<longrightarrow>
      CHR ''.'' \<notin> set (format_metric v) \<and> \<not> four_decimals (format_metric v)"
    unfolding fm
  proof (cases "float_of v")
    case (Finite s m e)
    then show "\<not> is_finite (float_of v) \<longrightarrow>
      CHR ''.'' \<notin> set (format_4f (float_of v)) \<and> \<not> four_decimals (format_4f (float_of v))"
      by simp
  next
    case (Infinity s)
    then show "\<not> is_finite (float_of v) \<longrightarrow>
      CHR ''.'' \<notin> set (format_4f (float_of v)) \<and> \<not> four_decimals (format_4f (float_of v))"
      by (cases s) (simp_all add: sign_str_def four_decimals_def)
  next
    case NaN
    then show "\<not> is_finite (float_of v) \<longrightarrow>
      CHR ''.'' \<notin> set (format_4f (float_of v)) \<and> \<not> four_decimals (format_4f (float_of v))"
      by (simp add: four_decimals_def)
  qed
  have again: "\<exists>y. py_float (format_metric v) = Some y \<and> is_double y \<and>
      format_metric (Num y) = format_metric v"
    using format_4f_reparse [OF assms] by (simp add: fm)
  from fin nan pinf ninf nopoint again show ?thesis
    by (intro conjI)
qed

theorem format_metric_four_decimals_idempotent_witness:
  "is_double (float_of (Num (Finite False 1 (- 1)))) \<and>
   is_finite (float_of (Num (Finite False 1 (- 1)))) \<and>
   format_metric (Num (Finite False 1 (- 1))) = ''0.5000'' \<and>
   four_decimals ''0.5000'' \<and>
   py_float ''0.5000'' = Some (Finite False (2 ^ 52) (- 53)) \<and>
   is_double (Finite False (2 ^ 52) (- 53)) \<and>
   format_metric (Num (Finite False (2 ^ 52) (- 53))) = ''0.5000'' \<and>
   is_double (float_of (Tensor (Infinity True))) \<and>
   format_metric (Tensor (Infinity True)) = ''-inf'' \<and>
   \<not> four_decimals (format_metric (Tensor (Infinity True)))"
proof -
  have d: "is_double (float_of (Num (Finite False 1 (- 1))))"
    by simp
  have n: "is_finite (float_of (Num (Finite False 1 (- 1))))"
    by simp
  have f: "format_metric (Num (Finite False 1 (- 1))) = ''0.5000''"
    by (simp add: magnitude_def round_half_even_def Let_def fixed4_def pad4_def digit_char_def
        str_nat.simps sign_str_def power_int_minus)
  have p: "py_float ''0.5000'' = Some (Finite False (2 ^ 52) (- 53))"
    by (simp only: py_float_half round_to_double_half)
  note t = format_metric_four_decimals_idempotent [OF d, unfolded f p]
  from t n have four: "four_decimals ''0.5000''"
    by (simp only: simp_thms)
  from t obtain y where y: "Some (Finite False (2 ^ 52) (- 53)) = Some y"
    "is_double y" "format_metric (Num y) = ''0.5000''"
    by blast
  from y(1) have "y = Finite False (2 ^ 52) (- 53)"
    by (simp only: option.inject)
  with y(2,3) have rt: "is_double (Finite False (2 ^ 52) (- 53))"
    "format_metric (Num (Finite False (2 ^ 52) (- 53))) = ''0.5000''"
    by (simp_all only:)
  have di: "is_double (float_of (Tensor (Infinity True)))"
    by simp
  have fi: "float_of (Tensor (Infinity True)) = Infinity True"
    "\<not> is_finite (float_of (Tensor (Infinity True)))"
    by simp_all
  note ti = format_metric_four_decimals_idempotent [OF di]
  have neg_inf: "format_metric (Tensor (Infinity True)) = ''-inf''"
    "\<not> four_decimals (format_metric (Tensor (Infinity True)))"
  proof -
    from ti have "float_of (Tensor (Infinity True)) = Infinity True \<longrightarrow>
        format_metric (Tensor (Infinity True)) = ''-inf''"
      by (elim conjE)
    with fi(1) show "format_metric (Tensor (Infinity True)) = ''-inf''"
      by (rule rev_mp)
    from ti have "\<not> is_finite (float_of (Tensor (Infinity True))) \<longrightarrow>
        CHR ''.'' \<notin> set (format_metric (Tensor (Infinity True))) \<and>
        \<not> four_decimals (format_metric (Tensor (Infinity True)))"
      by (elim conjE)
    with fi(2) have "CHR ''.'' \<notin> set (format_metric (Tensor (Infinity True))) \<and>
        \<not> four_decimals (format_metric (Tensor (Infinity True)))"
      by (rule rev_mp)
    then show "\<not> four_decimals (format_metric (Tensor (Infinity True)))"
      by (rule conjunct2)
  qed
  from d n f p four rt di neg_inf show ?thesis
    by (intro conjI)
qed

text \<open>
  Claim C7, as stated: every body starts with \<^verbatim>\<open>[name tag] \<close>. The message that
  \<^verbatim>\<open>on_train_begin\<close> dispatches for the project \<^verbatim>\<open>proj\<close> with the tag \<^verbatim>\<open>abcdef\<close> does
  not start with \<^verbatim>\<open>[proj abcdef] \<close>: name and tag are wrapped in backticks.
\<close>

theorem banner_counterexample:
  "json_text (snd (hd (dispatched example_world
      (world_of (on_train_begin example_callback example_kwargs example_world))))) =
     ''[`proj abcdef`] *Started training for 4 epochs*'' \<and>
   tag (self_of (on_train_begin example_callback example_kwargs example_world)) = ''abcdef'' \<and>
   \<not> starts_with (''['' @ name example_callback @ '' '' @ ''abcdef'' @ ''] '')
       ''[`proj abcdef`] *Started training for 4 epochs*''"
proof -
  have g: "fst (generate_tag example_world) = ''abcdef''"
    by code_simp
  have n: "name example_callback = ''proj''" "n_epochs example_kwargs = 4"
    by (simp_all add: example_callback_def example_kwargs_def)
  show ?thesis
    by (simp add: on_train_begin_dispatched on_train_begin_self g n banner_def starts_with_def)
qed

text \<open>
  Claim C7, amended. Every body dispatched by a callback starts with the banner
  \<^verbatim>\<open>[`name tag`] \<close> (name and tag inside a backtick code span), where the tag is the
  one the adapter holds when it sends: the freshly generated one in \<^verbatim>\<open>on_train_begin\<close>.
  The constructor leaves the tag empty, and \<^verbatim>\<open>on_train_begin\<close> replaces it by a newly
  generated tag.
\<close>

theorem banner_prefix_every_dispatch:
  "(\<forall>p \<in> set (dispatched w (world_of (on_train_begin self ka w))).
      starts_with (''[`'' @ name self @ '' '' @ fst (generate_tag w) @ ''`] '') (json_text (snd p))) \<and>
   (\<forall>p \<in> set (dispatched w (world_of (on_epoch_end ts self ka w))).
      starts_with (''[`'' @ name self @ '' '' @ tag self @ ''`] '') (json_text (snd p))) \<and>
   (\<forall>p \<in> set (dispatched w (world_of (on_train_end ts self ka w))).
      starts_with (''[`'' @ name self @ '' '' @ tag self @ ''`] '') (json_text (snd p))) \<and>
   (\<forall>self' w'. init nm u f w = (Inr self', w') \<longrightarrow> tag self' = []) \<and>
   tag (self_of (on_train_begin self ka w)) = fst (generate_tag w)"
proof -
  have b: "''[`'' @ name s @ '' '' @ tag s @ ''`] '' = banner s" for s
    by (simp add: banner_def)
  have b': "''[`'' @ name self @ '' '' @ fst (generate_tag w) @ ''`] '' =
      banner (self_of (on_train_begin self ka w))"
    by (simp add: banner_def on_train_begin_self)
  have 1: "\<forall>p \<in> set (dispatched w (world_of (on_train_begin self ka w))).
      starts_with (''[`'' @ name self @ '' '' @ fst (generate_tag w) @ ''`] '') (json_text (snd p))"
    unfolding b' by (simp add: on_train_begin_dispatched)
  have 2: "\<forall>p \<in> set (dispatched w (world_of (on_epoch_end ts self ka w))).
      starts_with (''[`'' @ name self @ '' '' @ tag self @ ''`] '') (json_text (snd p))"
    unfolding b using on_epoch_end_dispatched_any [of w ts self ka] by auto
  have 3: "\<forall>p \<in> set (dispatched w (world_of (on_train_end ts self ka w))).
      starts_with (''[`'' @ name self @ '' '' @ tag self @ ''`] '') (json_text (snd p))"
    unfolding b using on_train_end_dispatched_any [of w ts self ka] by auto
  have 4: "\<forall>self' w'. init nm u f w = (Inr self', w') \<longrightarrow> tag self' = []"
    using init_tag by blast
  have 5: "tag (self_of (on_train_begin self ka w)) = fst (generate_tag w)"
    by (simp add: on_train_begin_self)
  from 1 2 3 4 5 show ?thesis
    by (intro conjI)
qed

theorem banner_prefix_every_dispatch_witness:
  "dispatched example_world
     (world_of (on_train_begin example_callback example_kwargs example_world)) \<noteq> [] \<and>
   starts_with ''[`proj abcdef`] ''
     (json_text (snd (hd (dispatched example_world
        (world_of (on_train_begin example_callback example_kwargs example_world))))))"
proof -
  let ?d = "dispatched example_world
     (world_of (on_train_begin example_callback example_kwargs example_world))"
  have ne: "?d \<noteq> []"
    by (simp add: on_train_begin_dispatched)
  then have m: "hd ?d \<in> set ?d"
    by (rule hd_in_set)
  have g: "fst (generate_tag example_world) = ''abcdef''"
    by code_simp
  have n: "name example_callback = ''proj''"
    by (simp add: example_callback_def)
  note t = banner_prefix_every_dispatch [where w = example_world and self = example_callback
      and ka = example_kwargs, THEN conjunct1]
  from bspec [OF t m] ne show ?thesis
    by (simp add: g n)
qed

text \<open>
  Claim C8. \<^verbatim>\<open>on_epoch_end\<close> and \<^verbatim>\<open>on_train_end\<close> return the adapter as they received
  it; \<^verbatim>\<open>on_train_begin\<close> keeps name, URL and frequency and sets only the tag and the
  tracked metric names.
\<close>

theorem callbacks_frame:
  "self_of (on_epoch_end ts self ka w) = self \<and>
   self_of (on_train_end ts self ka w) = self \<and>
   name (self_of (on_train_begin self ka w)) = name self \<and>
   url (self_of (on_train_begin self ka w)) = url self \<and>
   freq (self_of (on_train_begin self ka w)) = freq self \<and>
   tag (self_of (on_train_begin self ka w)) = fst (generate_tag w) \<and>
   metrics (self_of (on_train_begin self ka w)) =
     Some ([''train_loss'', ''valid_loss''] @ metrics_names ka)"
  by (simp add: on_epoch_end_self on_train_end_self on_train_begin_self)

text \<open>
  Claim C9. Whatever the random generator draws, \<^verbatim>\<open>generate_tag\<close> returns six
  characters, each a lowercase ASCII letter or a decimal digit.
\<close>

theorem generate_tag_six_alnum:
  "length (fst (generate_tag w)) = 6 \<and>
   list_all (\<lambda>c. c \<in> set ''abcdefghijklmnopqrstuvwxyz0123456789'') (fst (generate_tag w))"
  (is "?len \<and> list_all (\<lambda>c. c \<in> ?A) ?t")
proof
  show ?len
    by (simp only: generate_tag_def choices_length)
next
  have "ascii_lowercase @ digits = ''abcdefghijklmnopqrstuvwxyz0123456789''"
    by (simp add: ascii_lowercase_def digits_def)
  then have sub: "set ?t \<subseteq> ?A"
    using choices_alphabet [of 6 w] by (simp only: generate_tag_def)
  show "list_all (\<lambda>c. c \<in> ?A) ?t"
    unfolding list_all_iff
  proof (rule ballI)
    fix c
    assume "c \<in> set ?t"
    with sub show "c \<in> ?A"
      by (rule subsetD)
  qed
qed

theorem generate_tag_six_alnum_witness:
  "fst (generate_tag example_world) = ''abcdef'' \<and>
   length (fst (generate_tag example_world)) = 6 \<and>
   list_all (\<lambda>c. c \<in> set ''abcdefghijklmnopqrstuvwxyz0123456789'') (fst (generate_tag example_world))"
proof -
  have "fst (generate_tag example_world) = ''abcdef''"
    by code_simp
  with generate_tag_six_alnum [of example_world] show ?thesis
    by simp
qed

text \<open>
  Claim C10. With a negative frequency \<^verbatim>\<open>on_epoch_end\<close> dispatches nothing, and
  \<^verbatim>\<open>on_train_end\<close> without an exception dispatches the bare \<^verbatim>\<open>*Training complete*\<close>:
  \<open>n_epochs mod freq\<close> is never positive for a negative divisor (HOL's \<open>mod\<close> on
  \<open>int\<close> takes the sign of the divisor, as Python's \<^verbatim>\<open>%\<close> does).
\<close>

theorem negative_frequency_dispatch:
  assumes "freq self < 0"
  shows "dispatched w (world_of (on_epoch_end ts self ka w)) = [] \<and>
     (exception ka = None \<longrightarrow>
        n_epochs ka mod freq self \<le> 0 \<and>
        dispatched w (world_of (on_train_end ts self ka w)) =
          [(url self, \<lparr>json_text = banner self @ ''*Training complete*'', json_mrkdwn = True\<rparr>)])"
proof -
  from assms have m: "n_epochs ka mod freq self \<le> 0"
    by (rule neg_mod_sign)
  then have m': "\<not> 0 < n_epochs ka mod freq self"
    by simp
  from assms have f: "freq self \<noteq> 0" "\<not> 0 < freq self"
    by simp_all
  have e: "dispatched w (world_of (on_epoch_end ts self ka w)) = []"
    by (simp add: on_epoch_end_def f world_of_def)
  have t: "dispatched w (world_of (on_train_end ts self ka w)) =
      [(url self, \<lparr>json_text = banner self @ ''*Training complete*'', json_mrkdwn = True\<rparr>)]"
    if "exception ka = None"
    using that by (simp add: on_train_end_def f m' Let_def send_dispatched)
  from e t m show ?thesis
    by simp
qed

theorem negative_frequency_dispatch_witness:
  "freq (example_callback\<lparr>freq := - 3\<rparr>) < 0 \<and>
   exception example_kwargs = None \<and>
   dispatched example_world
     (world_of (on_epoch_end example_to_string (example_callback\<lparr>freq := - 3\<rparr>)
        (example_kwargs\<lparr>epoch := 2\<rparr>) example_world)) = [] \<and>
   map (\<lambda>p. json_text (snd p))
     (dispatched example_world
        (world_of (on_train_end example_to_string (example_callback\<lparr>freq := - 3\<rparr>)
           example_kwargs example_world))) =
   [''[`proj abcdef`] *Training complete*'']"
proof -
  have h: "freq (example_callback\<lparr>freq := - 3\<rparr>) < 0"
    by simp
  have e: "exception example_kwargs = None"
    by (simp add: example_kwargs_def)
  have b: "banner (example_callback\<lparr>freq := - 3\<rparr>) = ''[`proj abcdef`] ''"
    by (simp add: banner_def example_callback_def)
  from negative_frequency_dispatch [OF h, where w = example_world and ts = example_to_string
      and ka = "example_kwargs\<lparr>epoch := 2\<rparr>"]
    negative_frequency_dispatch [OF h, where w = example_world and ts = example_to_string
      and ka = example_kwargs] h e
  show ?thesis
    by (simp add: b)
qed

end
